theory Spec2Isabelle
  imports Main "HOL-Library.List_Lexorder" "HOL-Library.Multiset"
begin

section \<open>Python values\<close>

text \<open>
  A Python \<open>str\<close> is a sequence of Unicode code points; \<open>len\<close> counts code points and
  \<open><\<close> compares lexicographically by code point.  It is modelled as a list of naturals,
  ordered by the lexicographic order of \<open>HOL-Library.List_Lexorder\<close>.  ASCII literals of
  the source are written \<open>ascii ''...''\<close>.
\<close>

type_synonym pystr = "nat list"

abbreviation ascii :: "string \<Rightarrow> pystr" where
  "ascii s \<equiv> map of_char s"

text \<open>
  The values a JSON document or a record attribute can hold (floating point numbers are
  left out: no function of the source computes with them).  A \<open>dict\<close> is an association
  list read with \<open>map_of\<close>.
\<close>

datatype pyval =
    PNone
  | PBool bool
  | PInt int
  | PStr pystr
  | PList "pyval list"
  | PDict "(pystr \<times> pyval) list"

text \<open>The exceptions that the modelled code can raise or let through.\<close>

datatype error =
    AttributeError
  | TypeError
  | JSONDecodeError
  | IsADirectoryError
  | FileNotFoundError
  | ValueError
  | StoreError pystr

text \<open>Python truthiness of an optional string: \<open>None\<close> and \<open>""\<close> are false.\<close>

fun truthy :: "pystr option \<Rightarrow> bool" where
  "truthy None = False"
| "truthy (Some s) = (s \<noteq> [])"

text \<open>\<open>a or b\<close> on optional strings: \<open>a\<close> when it is true, else \<open>b\<close>.\<close>

definition py_or :: "pystr option \<Rightarrow> pystr option \<Rightarrow> pystr option" where
  "py_or a b = (if truthy a then a else b)"

section \<open>The \<open>Text\<close> values of the rendering library\<close>

text \<open>
  \<open>rich.text.Text\<close> belongs to the rendering library, not to this program.  A \<open>Text\<close> is
  modelled by what the program sets and reads: the plain string, the base style, the
  \<open>justify\<close> and \<open>no_wrap\<close> options and the list of style spans \<open>(start, end, style)\<close>.
  A style is a style definition string such as \<open>bold\<close>, or the meta data attached by
  \<open>apply_meta\<close>.
\<close>

datatype style =
    Style pystr
  | Meta (click: pystr) (tree_node: nat) (cursor: bool)

type_synonym span = "nat \<times> nat \<times> style"

record Text =
  plain :: pystr
  base_style :: pystr
  justify :: "pystr option"
  no_wrap :: "bool option"
  spans :: "span list"

text \<open>
  The library removes five control codes (bell, backspace, vertical tab, form feed and
  carriage return) from every string that becomes part of a \<open>Text\<close>.
\<close>

definition STRIP_CONTROL_CODES :: "nat list" where
  "STRIP_CONTROL_CODES = [7, 8, 11, 12, 13]"

definition strip_control_codes :: "pystr \<Rightarrow> pystr" where
  "strip_control_codes s = filter (\<lambda>c. c \<notin> set STRIP_CONTROL_CODES) s"

text \<open>
  \<open>Text(s, no_wrap=nw)\<close>, \<open>Text(s, style=st, justify=j)\<close>: the string without the
  control codes.
\<close>

definition Text_new :: "pystr \<Rightarrow> pystr \<Rightarrow> pystr option \<Rightarrow> bool option \<Rightarrow> Text" where
  "Text_new s st j nw =
     \<lparr>plain = strip_control_codes s, base_style = st, justify = j, no_wrap = nw,
      spans = []\<rparr>"

text \<open>\<open>t.copy()\<close>: a new \<open>Text\<close> of the plain string and the options, with the spans.\<close>

definition copy_text :: "Text \<Rightarrow> Text" where
  "copy_text t = (Text_new (plain t) (base_style t) (justify t) (no_wrap t))\<lparr>spans := spans t\<rparr>"

text \<open>
  \<open>t.stylize(st)\<close> with the default range: a span over the whole text, and nothing
  when the style or the text is empty.
\<close>

definition stylize :: "pystr \<Rightarrow> Text \<Rightarrow> Text" where
  "stylize st t =
     (if st \<noteq> [] \<and> plain t \<noteq> []
      then t\<lparr>spans := spans t @ [(0, length (plain t), Style st)]\<rparr>
      else t)"

text \<open>
  \<open>t.apply_meta(meta)\<close> for a dictionary \<open>meta\<close> that is not empty: \<open>stylize\<close> with the
  style made of the meta data, so a span over the whole text unless the text is empty.
\<close>

definition apply_meta :: "style \<Rightarrow> Text \<Rightarrow> Text" where
  "apply_meta m t =
     (if plain t \<noteq> [] then t\<lparr>spans := spans t @ [(0, length (plain t), m)]\<rparr> else t)"

text \<open>
  \<open>t + s\<close> for a string \<open>s\<close>: a copy of \<open>t\<close> to which \<open>s\<close>, unless it is empty, is
  appended without its control codes and without a style.
\<close>

definition add_str :: "Text \<Rightarrow> pystr \<Rightarrow> Text" where
  "add_str t s =
     (let r = copy_text t in
      if s = [] then r else r\<lparr>plain := plain r @ strip_control_codes s\<rparr>)"

text \<open>
  \<open>t + u\<close> for a \<open>Text\<close> \<open>u\<close>: a copy of \<open>t\<close> to which \<open>u\<close>, unless it is empty, is
  appended: its plain string, and after the spans of \<open>t\<close> the base style of \<open>u\<close> (when
  it has one) and the spans of \<open>u\<close>, moved right by the length of \<open>t\<close>.
\<close>

definition shift_span :: "nat \<Rightarrow> span \<Rightarrow> span" where
  "shift_span n sp = (case sp of (s, e, st) \<Rightarrow> (s + n, e + n, st))"

definition add_text :: "Text \<Rightarrow> Text \<Rightarrow> Text" where
  "add_text t u =
     (let r = copy_text t; n = length (plain r) in
      if plain u = [] then r
      else r\<lparr>plain := plain r @ plain u,
             spans := spans r
               @ (if base_style u \<noteq> []
                  then [(n, n + length (plain u), Style (base_style u))] else [])
               @ map (shift_span n) (spans u)\<rparr>)"

text \<open>
  The number of terminal cells a string takes: the sum of the cell sizes of its
  characters.  The cell size of a character (0, 1 or 2) comes from a table of the
  library and is a parameter here.
\<close>

definition cell_len :: "(nat \<Rightarrow> nat) \<Rightarrow> pystr \<Rightarrow> nat" where
  "cell_len cell_size s = sum_list (map cell_size s)"

text \<open>Whether position \<open>i\<close> of a text lies in a span of style \<open>st\<close>.\<close>

definition styled_at :: "style \<Rightarrow> Text \<Rightarrow> nat \<Rightarrow> bool" where
  "styled_at st t i = list_ex (\<lambda>(s, e, st'). st' = st \<and> s \<le> i \<and> i < e) (spans t)"

section \<open>The package view-model (package.py)\<close>

text \<open>
  The wrapped record is a \<open>PrefixRecord\<close> of the package manager.  Its schema makes
  \<open>name\<close> and \<open>version\<close> required strings and \<open>extracted_package_dir\<close> an optional string
  whose read raises \<open>AttributeError\<close> when it is unset; every other attribute is kept in
  \<open>attrs\<close>.
\<close>

record prefix_record =
  name :: pystr
  version :: pystr
  extracted_package_dir :: "pystr option"
  attrs :: "pystr \<rightharpoonup> pyval"

text \<open>\<open>getattr(record, item)\<close>.\<close>

definition record_getattr :: "prefix_record \<Rightarrow> pystr \<Rightarrow> error + pyval" where
  "record_getattr r item =
     (if item = ascii ''name'' then Inr (PStr (name r))
      else if item = ascii ''version'' then Inr (PStr (version r))
      else if item = ascii ''extracted_package_dir'' then
        (case extracted_package_dir r of None \<Rightarrow> Inl AttributeError | Some d \<Rightarrow> Inr (PStr d))
      else (case attrs r item of None \<Rightarrow> Inl AttributeError | Some v \<Rightarrow> Inr v))"

text \<open>
  A \<open>Package\<close> instance: the attributes \<open>_record\<close> and \<open>_update_available\<close> set by
  \<open>__init__\<close>, and the entry \<open>description\<close> that \<open>cached_property\<close> stores in the
  instance dictionary after the first successful read.
\<close>

record Package =
  p_record :: prefix_record
  p_update_available :: bool
  p_description :: "pyval option"

text \<open>
  \<open>random.random()\<close> returns \<open>k / 2^53\<close> for an integer \<open>0 \<le> k < 2^53\<close>, and the double
  \<open>0.8\<close> is \<open>7205759403792794 / 2^53\<close>; so \<open>random.random() > 0.8\<close> is decided on \<open>k\<close>.
\<close>

definition Package_init :: "prefix_record \<Rightarrow> nat \<Rightarrow> Package" where
  "Package_init r k =
     \<lparr>p_record = r, p_update_available = (k > 7205759403792794), p_description = None\<rparr>"

text \<open>\<open>Package.__getattr__\<close>.\<close>

definition Package_getattr :: "Package \<Rightarrow> pystr \<Rightarrow> error + pyval" where
  "Package_getattr p item = record_getattr (p_record p) item"

text \<open>The property \<open>update_available\<close> and its setter.\<close>

definition update_available :: "Package \<Rightarrow> bool" where
  "update_available p = p_update_available p"

definition set_update_available :: "Package \<Rightarrow> bool \<Rightarrow> Package" where
  "set_update_available p v = p\<lparr>p_update_available := v\<rparr>"

text \<open>
  \<open>Package._get_update_status_icon\<close>.  \<open>Text.from_markup\<close> of \<open>[bold #DB6015]X[/]\<close> is the
  one character \<open>X\<close> under a span of the style \<open>bold #DB6015\<close>.
\<close>

definition UPWARDS_ARROW :: nat where
  "UPWARDS_ARROW = 0x2191"

definition HEAVY_CHECK_MARK :: nat where
  "HEAVY_CHECK_MARK = 0x2714"

definition from_markup1 :: "pystr \<Rightarrow> nat \<Rightarrow> Text" where
  "from_markup1 st c =
     \<lparr>plain = [c], base_style = [], justify = None, no_wrap = None,
      spans = [(0, 1, Style st)]\<rparr>"

definition get_update_status_icon :: "bool \<Rightarrow> Text" where
  "get_update_status_icon b =
     (if b then from_markup1 (ascii ''bold #DB6015'') UPWARDS_ARROW
      else from_markup1 (ascii ''bold #43b049'') HEAVY_CHECK_MARK)"

text \<open>
  The property \<open>status\<close>.  \<open>self.version\<close> is not defined on \<open>Package\<close> and is read
  through \<open>__getattr__\<close>; a value that is not a string cannot be added to a \<open>Text\<close>.
\<close>

definition status :: "Package \<Rightarrow> error + Text" where
  "status p =
     (case Package_getattr p (ascii ''version'') of
        Inl e \<Rightarrow> Inl e
      | Inr (PStr v) \<Rightarrow>
          Inr (add_str (add_str (get_update_status_icon (update_available p)) (ascii '' '')) v)
      | Inr _ \<Rightarrow> Inl TypeError)"

text \<open>
  The file system as \<open>description\<close> reads it.  A path is the list of the segments given
  to \<open>Path\<close>.  A file holds what \<open>json.load\<close> makes of its content: a value, or nothing when
  the content is not JSON (\<open>json.load\<close> raises \<open>JSONDecodeError\<close>).
\<close>

datatype file_content = NotJson | Json pyval

datatype fs_node = Directory | File file_content

type_synonym filesystem = "pystr list \<rightharpoonup> fs_node"

text \<open>
  The body of \<open>Package.description\<close>.  \<open>self.extracted_package_dir\<close> is not defined on
  \<open>Package\<close> and is read through \<open>__getattr__\<close>; \<open>.get\<close> exists on a \<open>dict\<close> only.
\<close>

definition load_description :: "filesystem \<Rightarrow> Package \<Rightarrow> error + pyval" where
  "load_description fs p =
     (case Package_getattr p (ascii ''extracted_package_dir'') of
        Inl AttributeError \<Rightarrow> Inr (PStr [])
      | Inl e \<Rightarrow> Inl e
      | Inr (PStr package_dir) \<Rightarrow>
          (let info_path = [package_dir, ascii ''info'', ascii ''about.json''] in
           case fs info_path of
             None \<Rightarrow> Inr (PStr [])
           | Some Directory \<Rightarrow> Inl IsADirectoryError
           | Some (File NotJson) \<Rightarrow> Inl JSONDecodeError
           | Some (File (Json (PDict kvs))) \<Rightarrow>
               Inr (case map_of kvs (ascii ''summary'') of None \<Rightarrow> PStr [] | Some v \<Rightarrow> v)
           | Some (File (Json _)) \<Rightarrow> Inl AttributeError)
      | Inr _ \<Rightarrow> Inl TypeError)"

text \<open>
  \<open>cached_property\<close>: the value stored in the instance is returned when there is one;
  otherwise the body runs, and its value is stored unless it raises.
\<close>

definition description :: "filesystem \<Rightarrow> Package \<Rightarrow> (error + pyval) \<times> Package" where
  "description fs p =
     (case p_description p of
        Some v \<Rightarrow> (Inr v, p)
      | None \<Rightarrow>
          (case load_description fs p of
             Inl e \<Rightarrow> (Inl e, p)
           | Inr v \<Rightarrow> (Inr v, p\<lparr>p_description := Some v\<rparr>)))"

text \<open>
  Reading an attribute \<open>p.item\<close>.  The ordinary lookup finds the properties, the instance
  attributes and the names of the class body, and the names every object inherits
  (\<open>inherited\<close>, a parameter: \<open>__class__\<close>, \<open>__dict__\<close> and the like).  When the ordinary
  lookup raises \<open>AttributeError\<close>, also from inside a property, Python calls \<open>__getattr__\<close>.
\<close>

datatype attr_value =
    Val pyval
  | TextVal Text
  | RecordVal prefix_record
  | ClassAttr pystr

definition Package_methods :: "pystr list" where
  "Package_methods =
     [ascii ''__init__'', ascii ''__getattr__'', ascii ''_get_update_status_icon'']"

definition Package_names :: "pystr list" where
  "Package_names =
     [ascii ''update_available'', ascii ''status'', ascii ''_record'',
      ascii ''_update_available'', ascii ''description''] @ Package_methods"

definition Package_getattribute ::
  "(pystr \<Rightarrow> bool) \<Rightarrow> filesystem \<Rightarrow> Package \<Rightarrow> pystr \<Rightarrow> (error + attr_value) \<times> Package" where
  "Package_getattribute inherited fs p item =
     (if item = ascii ''update_available'' then (Inr (Val (PBool (update_available p))), p)
      else if item = ascii ''status'' then (map_sum id TextVal (status p), p)
      else if item = ascii ''_record'' then (Inr (RecordVal (p_record p)), p)
      else if item = ascii ''_update_available'' then (Inr (Val (PBool (p_update_available p))), p)
      else if item = ascii ''description'' then
        (case description fs p of (r, p') \<Rightarrow> (map_sum id Val r, p'))
      else if item \<in> set Package_methods \<or> inherited item then (Inr (ClassAttr item), p)
      else (Inl AttributeError, p))"

definition Package_read ::
  "(pystr \<Rightarrow> bool) \<Rightarrow> filesystem \<Rightarrow> Package \<Rightarrow> pystr \<Rightarrow> (error + attr_value) \<times> Package" where
  "Package_read inherited fs p item =
     (case Package_getattribute inherited fs p item of
        (Inl AttributeError, p') \<Rightarrow> (map_sum id Val (Package_getattr p' item), p')
      | (r, p') \<Rightarrow> (r, p'))"

text \<open>Whether the wrapped record has the attribute \<open>item\<close>.\<close>

definition record_hasattr :: "prefix_record \<Rightarrow> pystr \<Rightarrow> bool" where
  "record_hasattr r item =
     (if item = ascii ''name'' \<or> item = ascii ''version'' then True
      else if item = ascii ''extracted_package_dir'' then extracted_package_dir r \<noteq> None
      else attrs r item \<noteq> None)"

section \<open>The package lister (package.py)\<close>

text \<open>
  Modelled from the spec: the class \<open>Environment\<close> (the module \<open>conda_tui.environment\<close>
  is not among the sources).  An environment is a value with an optional display name
  and an optional path, equal to another when both agree.  Its derived attributes
  \<open>rpath\<close> (app.py) and \<open>prefix\<close> (package.py) are functions of the value and are taken
  as parameters in \<open>world\<close>.
\<close>

record environment =
  env_name :: "pystr option"
  env_path :: "pystr option"

text \<open>\<open>Environment()\<close>, the data of the root node.\<close>

definition Environment0 :: environment where
  "Environment0 = \<lparr>env_name = None, env_path = None\<rparr>"

text \<open>
  What the program reads from outside: the random numbers \<open>random.random()\<close> draws (by
  the index of the draw, each as its numerator \<open>k\<close>), the metadata store
  (\<open>PrefixData(prefix, pip_interop_enabled=True).iter_records()\<close>: the records, or the
  exception it raises), the two derived attributes of an environment and the text of
  \<open>resources/ascii-logo-80.txt\<close> (\<open>None\<close> when the file cannot be opened).
\<close>

record world =
  random :: "nat \<Rightarrow> nat"
  store :: "pystr \<Rightarrow> error + prefix_record list"
  env_prefix :: "environment \<Rightarrow> pystr option"
  env_rpath :: "environment \<Rightarrow> pystr option"
  logo_asset :: "pystr option"

text \<open>A list object: its address and its elements.\<close>

type_synonym list_obj = "nat \<times> Package list"

text \<open>What the pane \<open>package_list\<close> shows.\<close>

datatype content = Logo Text | PackageTable list_obj

text \<open>
  The state of the process: the memo table of \<open>list_packages_for_environment\<close>, the
  number of list objects allocated and of random numbers drawn, the memo of \<open>get_logo\<close>
  and the content of the pane.  Three fields only record what happened: the environments
  the lister was called with, those whose store was read, and the number of reads of the
  logo file.
\<close>

record state =
  cache :: "environment \<rightharpoonup> list_obj"
  allocated :: nat
  drawn :: nat
  logo_cache :: "Text option"
  package_list :: "content option"
  lister_calls :: "environment list"
  store_reads :: "environment list"
  logo_reads :: nat

definition initial_state :: state where
  "initial_state =
     \<lparr>cache = Map.empty, allocated = 0, drawn = 0, logo_cache = None, package_list = None,
      lister_calls = [], store_reads = [], logo_reads = 0\<rparr>"

text \<open>\<open>str(x)\<close> of an optional string.\<close>

fun py_str :: "pystr option \<Rightarrow> pystr" where
  "py_str None = ascii ''None''"
| "py_str (Some s) = s"

text \<open>
  \<open>x.name\<close> on a \<open>Package\<close>, the sort key: \<open>name\<close> is not defined on \<open>Package\<close>, so the
  read goes through \<open>__getattr__\<close> to the record.
\<close>

definition Package_name :: "Package \<Rightarrow> pystr" where
  "Package_name x = name (p_record x)"

text \<open>
  The body of \<open>list_packages_for_environment\<close>.  \<open>sorted\<close> is a stable sort, as
  \<open>sort_key\<close> is.
\<close>

definition list_packages_body ::
  "world \<Rightarrow> environment \<Rightarrow> state \<Rightarrow> (error + Package list) \<times> state" where
  "list_packages_body w env st =
     (let st1 = st\<lparr>store_reads := store_reads st @ [env]\<rparr> in
      case store w (py_str (env_prefix w env)) of
        Inl e \<Rightarrow> (Inl e, st1)
      | Inr records \<Rightarrow>
          (let n = length records;
               packages = map2 Package_init records (map (random w) [drawn st ..< drawn st + n])
           in (Inr (sort_key Package_name packages), st1\<lparr>drawn := drawn st + n\<rparr>)))"

text \<open>
  \<open>@cache\<close>: a call with an argument equal to an earlier one returns the object stored
  then; otherwise the body runs and its result, unless it raises, is stored.
\<close>

definition list_packages_for_environment ::
  "world \<Rightarrow> environment \<Rightarrow> state \<Rightarrow> (error + list_obj) \<times> state" where
  "list_packages_for_environment w env st0 =
     (let st = st0\<lparr>lister_calls := lister_calls st0 @ [env]\<rparr> in
      case cache st env of
        Some obj \<Rightarrow> (Inr obj, st)
      | None \<Rightarrow>
          (case list_packages_body w env st of
             (Inl e, st') \<Rightarrow> (Inl e, st')
           | (Inr packages, st') \<Rightarrow>
               (let obj = (allocated st', packages) in
                (Inr obj,
                 st'\<lparr>cache := (cache st')(env \<mapsto> obj), allocated := allocated st' + 1\<rparr>))))"

section \<open>The application (app.py)\<close>

subsection \<open>The logo\<close>

text \<open>\<open>s.split(c)\<close> for a one-character separator, and \<open>c.join(xs)\<close>.\<close>

fun split_on :: "nat \<Rightarrow> pystr \<Rightarrow> pystr list" where
  "split_on c [] = [[]]"
| "split_on c (x # xs) =
     (if x = c then [] # split_on c xs
      else (case split_on c xs of [] \<Rightarrow> [[x]] | l # ls \<Rightarrow> (x # l) # ls))"

fun join :: "nat \<Rightarrow> pystr list \<Rightarrow> pystr" where
  "join c [] = []"
| "join c [l] = l"
| "join c (l # m # ls) = l @ c # join c (m # ls)"

text \<open>\<open>max\<close> of a sequence, which raises \<open>ValueError\<close> on an empty one.\<close>

fun py_max :: "nat list \<Rightarrow> error + nat" where
  "py_max [] = Inl ValueError"
| "py_max (x # xs) = Inr (fold max xs x)"

text \<open>
  The format \<open>{line:{n}s}\<close>: the string, filled on the right with spaces up to \<open>n\<close>
  characters (for \<open>n = 0\<close> as Python 3.10 and later read the format \<open>0s\<close>).
\<close>

definition format_s :: "nat \<Rightarrow> pystr \<Rightarrow> pystr" where
  "format_s n line = line @ replicate (n - length line) 0x20"

definition NEWLINE :: nat where
  "NEWLINE = 0x0A"

definition ZERO_WIDTH_SPACE :: nat where
  "ZERO_WIDTH_SPACE = 0x200B"

definition pad_lines :: "nat \<Rightarrow> pystr list \<Rightarrow> pystr list" where
  "pad_lines max_line_length lines =
     (let blank = [ZERO_WIDTH_SPACE] in
      map (\<lambda>line. blank @ format_s max_line_length line @ blank) lines)"

definition get_logo_body :: "world \<Rightarrow> state \<Rightarrow> (error + Text) \<times> state" where
  "get_logo_body w st =
     (let st1 = st\<lparr>logo_reads := logo_reads st + 1\<rparr> in
      case logo_asset w of
        None \<Rightarrow> (Inl FileNotFoundError, st1)
      | Some s \<Rightarrow>
          (let lines = split_on NEWLINE s in
           case py_max (map length lines) of
             Inl e \<Rightarrow> (Inl e, st1)
           | Inr max_line_length \<Rightarrow>
               (let padded_lines = pad_lines max_line_length lines;
                    logo_text = Text_new (join NEWLINE padded_lines) (ascii ''green'')
                                  (Some (ascii ''center'')) None
                in (Inr logo_text, st1))))"

text \<open>\<open>@lru_cache()\<close> on a function without arguments.\<close>

definition get_logo :: "world \<Rightarrow> state \<Rightarrow> (error + Text) \<times> state" where
  "get_logo w st =
     (case logo_cache st of
        Some t \<Rightarrow> (Inr t, st)
      | None \<Rightarrow>
          (case get_logo_body w st of
             (Inl e, st') \<Rightarrow> (Inl e, st')
           | (Inr t, st') \<Rightarrow> (Inr t, st'\<lparr>logo_cache := Some t\<rparr>)))"

subsection \<open>The environment tree\<close>

text \<open>
  A node of the tree control, with the attributes the program reads: its id, its label
  (a string or a \<open>Text\<close>), the environment it carries, and whether it is expanded and
  under the cursor.
\<close>

datatype label = StrLabel pystr | TextLabel Text

record TreeNode =
  node_id :: nat
  label :: label
  data :: environment
  expanded :: bool
  is_cursor :: bool

record EnvironmentTree =
  hover_node :: "nat option"
  has_focus :: bool

text \<open>\<open>str(n)\<close> of a node id, in decimal.\<close>

fun str_nat :: "nat \<Rightarrow> pystr" where
  "str_nat n = (if n < 10 then [48 + n] else str_nat (n div 10) @ [48 + n mod 10])"

text \<open>\<open>a or s\<close> where \<open>s\<close> is a string: \<open>a\<close> when it is true, else \<open>s\<close>.\<close>

fun or_str :: "pystr option \<Rightarrow> pystr \<Rightarrow> pystr" where
  "or_str None s = s"
| "or_str (Some a) s = (if a \<noteq> [] then a else s)"

definition BLACK_CIRCLE :: nat where
  "BLACK_CIRCLE = 0x25CF"

definition WHITE_CIRCLE :: nat where
  "WHITE_CIRCLE = 0x25CB"

text \<open>
  The string shown for a node with a string label:
  \<open>(rpath if is_hover else name or rpath) or node.label\<close>.
\<close>

definition label_string :: "world \<Rightarrow> TreeNode \<Rightarrow> bool \<Rightarrow> pystr \<Rightarrow> pystr" where
  "label_string w node is_hover s =
     or_str (if is_hover then env_rpath w (data node)
             else py_or (env_name (data node)) (env_rpath w (data node))) s"

text \<open>
  \<open>EnvironmentTree.render_label\<close>.  Its \<open>lru_cache\<close> keeps one result for each tuple of
  arguments; the body reads the arguments and the attributes of the node only.
\<close>

definition render_label :: "world \<Rightarrow> TreeNode \<Rightarrow> bool \<Rightarrow> bool \<Rightarrow> bool \<Rightarrow> bool \<Rightarrow> Text" where
  "render_label w node is_expanded cursor_arg is_hover focus =
     (let meta = Meta (ascii ''click_label('' @ str_nat (node_id node) @ ascii '')'')
                   (node_id node) (is_cursor node);
          label0 = (case label node of
                      TextLabel t \<Rightarrow> t
                    | StrLabel s \<Rightarrow> Text_new (label_string w node is_hover s) [] None (Some True));
          label1 = (if is_hover then stylize (ascii ''bold'') label0 else label0);
          icon_label =
            add_text
              (add_str
                 (Text_new (if is_expanded then [BLACK_CIRCLE] else [WHITE_CIRCLE]) [] None (Some True))
                 (ascii '' ''))
              label1
      in apply_meta meta icon_label)"

definition render_node :: "world \<Rightarrow> EnvironmentTree \<Rightarrow> TreeNode \<Rightarrow> Text" where
  "render_node w tree node =
     render_label w node (expanded node) (is_cursor node)
       (Some (node_id node) = hover_node tree) (has_focus tree)"

subsection \<open>The application\<close>

text \<open>
  \<open>CondaTUI.show_package_table\<close>: the lister is called with the data of the node, and the
  pane shows a table over the list it returns.
\<close>

definition show_package_table :: "world \<Rightarrow> TreeNode \<Rightarrow> state \<Rightarrow> (error + unit) \<times> state" where
  "show_package_table w node st =
     (case list_packages_for_environment w (data node) st of
        (Inl e, st') \<Rightarrow> (Inl e, st')
      | (Inr packages, st') \<Rightarrow> (Inr (), st'\<lparr>package_list := Some (PackageTable packages)\<rparr>))"

text \<open>
  \<open>CondaTUI.handle_tree_click\<close>, on the node of the message; it returns the node as the
  handler leaves it.
\<close>

definition handle_tree_click ::
  "world \<Rightarrow> TreeNode \<Rightarrow> state \<Rightarrow> (error + unit) \<times> TreeNode \<times> state" where
  "handle_tree_click w node st =
     (if \<not> truthy (env_path (data node)) then (Inr (), node, st)
      else (case show_package_table w node st of
              (Inl e, st') \<Rightarrow> (Inl e, node, st')
            | (Inr u, st') \<Rightarrow> (Inr (), node\<lparr>expanded := True\<rparr>, st')))"

text \<open>\<open>CondaTUI.action_display_logo\<close>.\<close>

definition action_display_logo :: "world \<Rightarrow> state \<Rightarrow> (error + unit) \<times> state" where
  "action_display_logo w st =
     (case get_logo w st of
        (Inl e, st') \<Rightarrow> (Inl e, st')
      | (Inr t, st') \<Rightarrow> (Inr (), st'\<lparr>package_list := Some (Logo t)\<rparr>))"

text \<open>
  The runs of the process: it starts in \<open>initial_state\<close>, and each event is a call of the
  lister, a load of the logo, a click on a node or the key that shows the logo (the
  mount of the application puts the logo in the pane as the key does).
\<close>

datatype event =
    CallLister environment
  | LoadLogo
  | Click TreeNode
  | KeyH

fun step :: "world \<Rightarrow> event \<Rightarrow> state \<Rightarrow> state" where
  "step w (CallLister env) st = snd (list_packages_for_environment w env st)"
| "step w LoadLogo st = snd (get_logo w st)"
| "step w (Click node) st = snd (snd (handle_tree_click w node st))"
| "step w KeyH st = snd (action_display_logo w st)"

definition run :: "world \<Rightarrow> event list \<Rightarrow> state \<Rightarrow> state" where
  "run w evs st = fold (step w) evs st"

section \<open>Auxiliary notions\<close>

text \<open>
  The list a call of the lister builds when it reads the store: the body's result for
  the records found, with the random numbers drawn from the current position.
\<close>

definition fresh_packages :: "world \<Rightarrow> state \<Rightarrow> prefix_record list \<Rightarrow> Package list" where
  "fresh_packages w st records =
     sort_key Package_name
       (map2 Package_init records (map (random w) [drawn st ..< drawn st + length records]))"

text \<open>
  The invariants of a run.  Every list in the memo table is sorted by name and holds the
  records of its environment's store; an environment whose store can be read has been
  read once when it is in the memo table and never otherwise; the memo of the logo holds
  the text made from the logo file.
\<close>

definition cache_ok :: "world \<Rightarrow> state \<Rightarrow> bool" where
  "cache_ok w st =
     (\<forall>env a xs. cache st env = Some (a, xs) \<longrightarrow>
        sorted (map Package_name xs)
        \<and> (\<exists>records. store w (py_str (env_prefix w env)) = Inr records
               \<and> mset (map p_record xs) = mset records))"

definition reads_ok :: "world \<Rightarrow> state \<Rightarrow> bool" where
  "reads_ok w st =
     (\<forall>env records. store w (py_str (env_prefix w env)) = Inr records \<longrightarrow>
        count_list (store_reads st) env = (if cache st env = None then 0 else 1))"

definition max_line_length :: "pystr \<Rightarrow> nat" where
  "max_line_length s = Max (length ` set (split_on NEWLINE s))"

definition logo_of :: "pystr \<Rightarrow> Text" where
  "logo_of s =
     Text_new (join NEWLINE (pad_lines (max_line_length s) (split_on NEWLINE s)))
       (ascii ''green'') (Some (ascii ''center'')) None"

definition logo_ok :: "world \<Rightarrow> state \<Rightarrow> bool" where
  "logo_ok w st =
     (\<forall>t. logo_cache st = Some t \<longrightarrow> (\<exists>s. logo_asset w = Some s \<and> t = logo_of s))"

text \<open>
  A package whose stored description, if it has one, is what the body of \<open>description\<close>
  computes on the file system \<open>fs\<close>: every package that was created by \<open>Package_init\<close>
  and read on \<open>fs\<close> only.
\<close>

definition description_consistent :: "filesystem \<Rightarrow> Package \<Rightarrow> bool" where
  "description_consistent fs p =
     (case p_description p of None \<Rightarrow> True | Some v \<Rightarrow> load_description fs p = Inr v)"

text \<open>
  The rule for the text of a label, in the words of the specification: the \<open>rpath\<close> when
  the node is hovered, else the name when it is set, else the \<open>rpath\<close>; and the raw label
  of the node when what was chosen is not set.
\<close>

definition label_text_by_rule ::
  "pystr option \<Rightarrow> pystr option \<Rightarrow> bool \<Rightarrow> pystr \<Rightarrow> pystr" where
  "label_text_by_rule rpath nm hovered raw =
     (case (if hovered then rpath else if truthy nm then nm else rpath) of
        None \<Rightarrow> raw
      | Some shown \<Rightarrow> if shown \<noteq> [] then shown else raw)"

section \<open>Example inputs\<close>

definition numpy_record :: prefix_record where
  "numpy_record =
     \<lparr>name = ascii ''numpy'', version = ascii ''1.26.4'',
      extracted_package_dir = Some (ascii ''/opt/conda/pkgs/numpy-1.26.4''),
      attrs = [ascii ''channel'' \<mapsto> PStr (ascii ''defaults'')]\<rparr>"

definition zlib_record :: prefix_record where
  "zlib_record =
     \<lparr>name = ascii ''zlib'', version = ascii ''1.3'', extracted_package_dir = None,
      attrs = Map.empty\<rparr>"

text \<open>A file system where the \<open>about.json\<close> of numpy is not JSON.\<close>

definition malformed_fs :: filesystem where
  "malformed_fs =
     [[ascii ''/opt/conda/pkgs/numpy-1.26.4'', ascii ''info'', ascii ''about.json'']
        \<mapsto> File NotJson]"

definition object_names :: "pystr \<Rightarrow> bool" where
  "object_names item =
     (item \<in> set [ascii ''__class__'', ascii ''__dict__'', ascii ''__doc__''])"

definition base_env :: environment where
  "base_env = \<lparr>env_name = Some (ascii ''base''), env_path = Some (ascii ''/opt/conda'')\<rparr>"

definition broken_env :: environment where
  "broken_env = \<lparr>env_name = Some (ascii ''broken''), env_path = Some (ascii ''/tmp/broken'')\<rparr>"

definition locked_env :: environment where
  "locked_env = \<lparr>env_name = None, env_path = Some (ascii ''/root/locked'')\<rparr>"

text \<open>
  A host with one readable environment under \<open>/opt/conda\<close>; the store of \<open>/tmp/broken\<close>
  is corrupted, that of any other prefix cannot be read.  The logo has the two lines
  \<open>ab\<close> and \<open>c\<close>.
\<close>

definition example_world :: world where
  "example_world =
     \<lparr>random = (\<lambda>i. if i = 0 then 9007199254740991 else 0),
      store = (\<lambda>prefix.
        if prefix = ascii ''/opt/conda'' then Inr [zlib_record, numpy_record]
        else if prefix = ascii ''/tmp/broken''
          then Inl (StoreError (ascii ''CorruptedEnvironmentError''))
        else Inl (StoreError (ascii ''PermissionError''))),
      env_prefix = env_path,
      env_rpath = env_path,
      logo_asset = Some (ascii ''ab'' @ [NEWLINE] @ ascii ''c'')\<rparr>"

definition example_packages :: "Package list" where
  "example_packages =
     [\<lparr>p_record = numpy_record, p_update_available = False, p_description = None\<rparr>,
      \<lparr>p_record = zlib_record, p_update_available = True, p_description = None\<rparr>]"

definition example_logo :: Text where
  "example_logo =
     \<lparr>plain = [ZERO_WIDTH_SPACE] @ ascii ''ab'' @ [ZERO_WIDTH_SPACE, NEWLINE, ZERO_WIDTH_SPACE]
               @ ascii ''c '' @ [ZERO_WIDTH_SPACE],
      base_style = ascii ''green'', justify = Some (ascii ''center''), no_wrap = None,
      spans = []\<rparr>"

definition root_node :: TreeNode where
  "root_node =
     \<lparr>node_id = 0, label = StrLabel (ascii ''envs''), data = Environment0,
      expanded = True, is_cursor = False\<rparr>"

definition base_node :: TreeNode where
  "base_node =
     \<lparr>node_id = 1, label = StrLabel (ascii ''base''), data = base_env,
      expanded = False, is_cursor = False\<rparr>"

definition broken_node :: TreeNode where
  "broken_node =
     \<lparr>node_id = 2, label = StrLabel (ascii ''broken''), data = broken_env,
      expanded = False, is_cursor = False\<rparr>"

section \<open>Properties of the \<open>Text\<close> operations\<close>

lemma strip_control_codes_append:
  "strip_control_codes (a @ b) = strip_control_codes a @ strip_control_codes b"
  by (simp add: strip_control_codes_def)

lemma strip_control_codes_idem:
  "strip_control_codes (strip_control_codes s) = strip_control_codes s"
  by (simp add: strip_control_codes_def)

lemma strip_control_codes_id:
  "\<forall>c\<in>set s. c \<notin> set STRIP_CONTROL_CODES \<Longrightarrow> strip_control_codes s = s"
  by (simp add: strip_control_codes_def)

lemma strip_control_codes_clean:
  "c \<in> set (strip_control_codes s) \<Longrightarrow> c \<notin> set STRIP_CONTROL_CODES"
  by (simp add: strip_control_codes_def)

lemma plain_Text_new: "plain (Text_new s st j nw) = strip_control_codes s"
  by (simp add: Text_new_def)

lemma spans_Text_new: "spans (Text_new s st j nw) = []"
  by (simp add: Text_new_def)

lemma plain_copy_text: "plain (copy_text t) = strip_control_codes (plain t)"
  by (simp add: copy_text_def Text_new_def)

lemma spans_copy_text: "spans (copy_text t) = spans t"
  by (simp add: copy_text_def)

lemma plain_add_str:
  "plain (add_str t s) = strip_control_codes (plain t) @ strip_control_codes s"
  by (simp add: add_str_def Let_def plain_copy_text strip_control_codes_def)

lemma spans_add_str: "spans (add_str t s) = spans t"
  by (simp add: add_str_def Let_def spans_copy_text)

lemma plain_add_text: "plain (add_text t u) = strip_control_codes (plain t) @ plain u"
  by (simp add: add_text_def Let_def plain_copy_text)

section \<open>Properties of the package view-model\<close>

lemma not_in_Package_names:
  assumes "item \<notin> set Package_names"
  shows "item \<noteq> ascii ''update_available''" "item \<noteq> ascii ''status''"
    "item \<noteq> ascii ''_record''" "item \<noteq> ascii ''_update_available''"
    "item \<noteq> ascii ''description''" "item \<notin> set Package_methods"
  using assms unfolding Package_names_def by auto

text \<open>The sort key is what reading the attribute \<open>name\<close> of a package gives.\<close>

lemma Package_read_name:
  "Package_read object_names fs x (ascii ''name'') = (Inr (Val (PStr (Package_name x))), x)"
  by (simp add: Package_read_def Package_getattribute_def Package_getattr_def
      record_getattr_def Package_name_def Package_methods_def object_names_def)

text \<open>The text of the icon, and of the status built on it.\<close>

lemma icon_text:
  "plain (get_update_status_icon b) = (if b then [UPWARDS_ARROW] else [HEAVY_CHECK_MARK])"
  "spans (get_update_status_icon b)
     = [(0, 1, Style (if b then ascii ''bold #DB6015'' else ascii ''bold #43b049''))]"
  by (simp_all add: get_update_status_icon_def from_markup1_def)

lemma icon_clean:
  "strip_control_codes (plain (get_update_status_icon b)) = plain (get_update_status_icon b)"
  by (simp add: icon_text strip_control_codes_def STRIP_CONTROL_CODES_def UPWARDS_ARROW_def
      HEAVY_CHECK_MARK_def)

lemma status_text:
  "\<exists>t. status p = Inr t
     \<and> plain t = (if update_available p then [UPWARDS_ARROW] else [HEAVY_CHECK_MARK])
                   @ ascii '' '' @ strip_control_codes (version (p_record p))
     \<and> spans t = [(0, 1, Style (if update_available p then ascii ''bold #DB6015''
                                else ascii ''bold #43b049''))]"
proof -
  let ?t = "add_str (add_str (get_update_status_icon (update_available p)) (ascii '' ''))
              (version (p_record p))"
  have s: "status p = Inr ?t"
    by (simp add: status_def Package_getattr_def record_getattr_def)
  have sp: "strip_control_codes (ascii '' '') = ascii '' ''"
    by (simp add: strip_control_codes_def STRIP_CONTROL_CODES_def)
  have p: "plain ?t = plain (get_update_status_icon (update_available p))
             @ ascii '' '' @ strip_control_codes (version (p_record p))"
    unfolding plain_add_str strip_control_codes_append strip_control_codes_idem icon_clean sp
    by simp
  have q: "spans ?t = spans (get_update_status_icon (update_available p))"
    by (simp add: spans_add_str)
  show ?thesis using s p q unfolding icon_text by blast
qed



text \<open>
  C10.  After \<open>p.update_available = b\<close> the flag reads \<open>b\<close>, and the status is a text
  whose plain string is the icon of \<open>b\<close> (the upwards arrow for true, the heavy check
  mark for false), a space and the version as the rendering library keeps it (the
  version itself when it has no control code).  This holds whatever random number \<open>k\<close>
  chose the flag when the package was made.
\<close>

theorem update_available_setter_drives_status:
  "update_available (set_update_available p b) = b
   \<and> (\<exists>t. status (set_update_available p b) = Inr t
         \<and> plain t = (if b then [UPWARDS_ARROW] else [HEAVY_CHECK_MARK])
                       @ ascii '' '' @ strip_control_codes (version (p_record p))
         \<and> ((\<forall>c\<in>set (version (p_record p)). c \<notin> set STRIP_CONTROL_CODES) \<longrightarrow>
              plain t = (if b then [UPWARDS_ARROW] else [HEAVY_CHECK_MARK])
                          @ ascii '' '' @ version (p_record p)))
   \<and> update_available (set_update_available (Package_init r k) b) = b
   \<and> (\<exists>t. status (set_update_available (Package_init r k) b) = Inr t
         \<and> plain t = (if b then [UPWARDS_ARROW] else [HEAVY_CHECK_MARK])
                       @ ascii '' '' @ strip_control_codes (version r))
   \<and> UPWARDS_ARROW \<noteq> HEAVY_CHECK_MARK"
proof -
  have u: "update_available (set_update_available q b) = b" for q
    by (simp add: update_available_def set_update_available_def)
  have r: "p_record (set_update_available q b) = p_record q" for q
    by (simp add: set_update_available_def)
  have i: "p_record (Package_init r k) = r" by (simp add: Package_init_def)
  have c: "UPWARDS_ARROW \<noteq> HEAVY_CHECK_MARK"
    by (simp add: UPWARDS_ARROW_def HEAVY_CHECK_MARK_def)
  from status_text[of "set_update_available p b"]
  have a: "\<exists>t. status (set_update_available p b) = Inr t
         \<and> plain t = (if b then [UPWARDS_ARROW] else [HEAVY_CHECK_MARK])
                       @ ascii '' '' @ strip_control_codes (version (p_record p))
         \<and> ((\<forall>c\<in>set (version (p_record p)). c \<notin> set STRIP_CONTROL_CODES) \<longrightarrow>
              plain t = (if b then [UPWARDS_ARROW] else [HEAVY_CHECK_MARK])
                          @ ascii '' '' @ version (p_record p))"
    unfolding u r by (auto simp: strip_control_codes_id)
  from status_text[of "set_update_available (Package_init r k) b"]
  have b: "\<exists>t. status (set_update_available (Package_init r k) b) = Inr t
         \<and> plain t = (if b then [UPWARDS_ARROW] else [HEAVY_CHECK_MARK])
                       @ ascii '' '' @ strip_control_codes (version r)"
    unfolding u r i by blast
  from a b c u show ?thesis by blast
qed

theorem update_available_setter_drives_status_witness:
  "list_all (\<lambda>c. c \<notin> set STRIP_CONTROL_CODES)
     (version (p_record (Package_init numpy_record 0)))
   \<and> \<not> update_available (Package_init numpy_record 0)
   \<and> update_available (set_update_available (Package_init numpy_record 0) True)
   \<and> (\<exists>t. status (set_update_available (Package_init numpy_record 0) True) = Inr t
         \<and> plain t = [UPWARDS_ARROW] @ ascii '' 1.26.4'')"
proof -
  have v: "version (p_record (Package_init numpy_record 0)) = ascii ''1.26.4''"
    "version numpy_record = ascii ''1.26.4''"
    by (simp_all add: Package_init_def numpy_record_def)
  have n: "\<forall>c\<in>set (version (p_record (Package_init numpy_record 0))).
       c \<notin> set STRIP_CONTROL_CODES"
    unfolding v by (simp add: STRIP_CONTROL_CODES_def)
  have u: "\<not> update_available (Package_init numpy_record 0)"
    by (simp add: update_available_def Package_init_def)
  show ?thesis
    using update_available_setter_drives_status[of "Package_init numpy_record 0" True
        numpy_record 0] n u
    unfolding v list_all_iff by auto
qed

text \<open>
  C9.  For a name that is neither defined on \<open>Package\<close> nor inherited by every object,
  reading the attribute on a package gives what reading it on the wrapped record gives
  and leaves the package as it was; the read raises, with \<open>AttributeError\<close>, exactly when
  the record does not have the attribute.
\<close>

theorem getattr_pass_through:
  assumes "item \<notin> set Package_names" and "\<not> inh item"
  shows "Package_read inh fs p item = (map_sum id Val (record_getattr (p_record p) item), p)
    \<and> (fst (Package_read inh fs p item) = Inl AttributeError
          \<longleftrightarrow> \<not> record_hasattr (p_record p) item)
    \<and> (isl (fst (Package_read inh fs p item)) \<longleftrightarrow> \<not> record_hasattr (p_record p) item)"
proof -
  have g: "Package_getattribute inh fs p item = (Inl AttributeError, p)"
    using not_in_Package_names[OF assms(1)] assms(2) by (simp add: Package_getattribute_def)
  have r: "Package_read inh fs p item = (map_sum id Val (record_getattr (p_record p) item), p)"
    by (simp add: Package_read_def g Package_getattr_def)
  have h: "record_getattr (p_record p) item = Inl AttributeError
      \<longleftrightarrow> \<not> record_hasattr (p_record p) item"
    by (auto simp: record_getattr_def record_hasattr_def split: option.splits)
  have h2: "isl (record_getattr (p_record p) item) \<longleftrightarrow> \<not> record_hasattr (p_record p) item"
    by (auto simp: record_getattr_def record_hasattr_def split: option.splits)
  show ?thesis using r h h2 by (cases "record_getattr (p_record p) item") auto
qed

theorem getattr_pass_through_witness:
  "ascii ''channel'' \<notin> set Package_names \<and> \<not> object_names (ascii ''channel'')
   \<and> Package_read object_names Map.empty (Package_init numpy_record 0) (ascii ''channel'')
       = (Inr (Val (PStr (ascii ''defaults''))), Package_init numpy_record 0)
   \<and> ascii ''build'' \<notin> set Package_names \<and> \<not> object_names (ascii ''build'')
   \<and> fst (Package_read object_names Map.empty (Package_init numpy_record 0) (ascii ''build''))
       = Inl AttributeError"
proof -
  have n1: "ascii ''channel'' \<notin> set Package_names"
    by (simp add: Package_names_def Package_methods_def)
  have o1: "\<not> object_names (ascii ''channel'')" by (simp add: object_names_def)
  have n2: "ascii ''build'' \<notin> set Package_names"
    by (simp add: Package_names_def Package_methods_def)
  have o2: "\<not> object_names (ascii ''build'')" by (simp add: object_names_def)
  have v1: "record_getattr (p_record (Package_init numpy_record 0)) (ascii ''channel'')
      = Inr (PStr (ascii ''defaults''))"
    by (simp add: record_getattr_def Package_init_def numpy_record_def)
  have v2: "\<not> record_hasattr (p_record (Package_init numpy_record 0)) (ascii ''build'')"
    by (simp add: record_hasattr_def Package_init_def numpy_record_def)
  show ?thesis
    using getattr_pass_through[where inh = object_names and fs = Map.empty
        and p = "Package_init numpy_record 0", OF n1 o1]
      getattr_pass_through[where inh = object_names and fs = Map.empty
        and p = "Package_init numpy_record 0", OF n2 o2]
      n1 o1 n2 o2 v1 v2
    by auto
qed

text \<open>
  The stored description of a package agrees with the file system: it does for a new
  package, and every read of an attribute keeps it so.
\<close>

lemma load_description_cached:
  "load_description fs (p\<lparr>p_description := d\<rparr>) = load_description fs p"
  by (simp add: load_description_def Package_getattr_def)

lemma description_consistent_init: "description_consistent fs (Package_init r k)"
  by (simp add: description_consistent_def Package_init_def)

lemma description_consistent_description:
  "description_consistent fs p \<Longrightarrow> description_consistent fs (snd (description fs p))"
  by (auto simp: description_def description_consistent_def load_description_cached
      split: option.splits sum.splits)

lemma description_consistent_read:
  assumes "description_consistent fs p"
  shows "description_consistent fs (snd (Package_read inh fs p item))"
proof -
  have g: "snd (Package_getattribute inh fs p item) = p
      \<or> snd (Package_getattribute inh fs p item) = snd (description fs p)"
    by (auto simp: Package_getattribute_def split: prod.splits)
  have r: "snd (Package_read inh fs p item) = snd (Package_getattribute inh fs p item)"
    by (auto simp: Package_read_def split: prod.splits sum.splits error.splits)
  show ?thesis
    using g assms description_consistent_description[OF assms] unfolding r by auto
qed

text \<open>
  The two failures that the property handles: without an extracted package directory,
  and without the file \<open>about.json\<close> under it, the read gives the empty string.
\<close>

lemma load_description_empty:
  assumes "extracted_package_dir (p_record p) = None
         \<or> (\<exists>d. extracted_package_dir (p_record p) = Some d
                \<and> fs [d, ascii ''info'', ascii ''about.json''] = None)"
  shows "load_description fs p = Inr (PStr [])"
  using assms by (auto simp: load_description_def Package_getattr_def record_getattr_def)

lemma description_empty_without_dir_or_file:
  assumes "description_consistent fs p"
    and "extracted_package_dir (p_record p) = None
         \<or> (\<exists>d. extracted_package_dir (p_record p) = Some d
                \<and> fs [d, ascii ''info'', ascii ''about.json''] = None)"
  shows "fst (Package_read inh fs p (ascii ''description'')) = Inr (Val (PStr []))"
proof -
  have l: "load_description fs p = Inr (PStr [])"
    by (rule load_description_empty[OF assms(2)])
  have d: "fst (description fs p) = Inr (PStr [])"
    using assms(1) l
    by (auto simp: description_def description_consistent_def split: option.splits)
  show ?thesis
    using d
    by (auto simp: Package_read_def Package_getattribute_def split: prod.splits)
qed

lemma description_empty_examples:
  "fst (Package_read object_names Map.empty (Package_init zlib_record 0)
          (ascii ''description'')) = Inr (Val (PStr []))"
  "fst (Package_read object_names Map.empty (Package_init numpy_record 0)
          (ascii ''description'')) = Inr (Val (PStr []))"
  by (rule description_empty_without_dir_or_file[OF description_consistent_init];
      simp add: Package_init_def zlib_record_def numpy_record_def)+

text \<open>
  C2.  Reading \<open>description\<close> is to give the empty string, and never to raise, when the
  directory is missing, when the file is missing and when the content of the file is
  malformed.  The property does so in the first two cases, as shown above, and not in
  the third: \<open>json.load\<close> runs outside the \<open>try\<close> block, so for a package whose
  \<open>about.json\<close> exists and is not JSON the read raises \<open>JSONDecodeError\<close>.
\<close>

theorem description_raises_on_malformed_json:
  "fst (Package_read object_names malformed_fs (Package_init numpy_record 0)
          (ascii ''description''))
     = Inl JSONDecodeError"
  by (simp add: Package_read_def Package_getattribute_def description_def load_description_def
      Package_getattr_def record_getattr_def Package_init_def numpy_record_def malformed_fs_def)

section \<open>Properties of the package lister\<close>

text \<open>The three ways a call of the lister can go.\<close>

lemma lister_hit:
  "cache st env = Some obj \<Longrightarrow>
   list_packages_for_environment w env st
     = (Inr obj, st\<lparr>lister_calls := lister_calls st @ [env]\<rparr>)"
  by (simp add: list_packages_for_environment_def)

lemma lister_fail:
  "cache st env = None \<Longrightarrow> store w (py_str (env_prefix w env)) = Inl e \<Longrightarrow>
   list_packages_for_environment w env st
     = (Inl e, st\<lparr>lister_calls := lister_calls st @ [env],
                    store_reads := store_reads st @ [env]\<rparr>)"
  by (simp add: list_packages_for_environment_def list_packages_body_def)

lemma lister_miss:
  "cache st env = None \<Longrightarrow> store w (py_str (env_prefix w env)) = Inr records \<Longrightarrow>
   list_packages_for_environment w env st
     = (Inr (allocated st, fresh_packages w st records),
        st\<lparr>lister_calls := lister_calls st @ [env],
           store_reads := store_reads st @ [env],
           drawn := drawn st + length records,
           cache := (cache st)(env \<mapsto> (allocated st, fresh_packages w st records)),
           allocated := allocated st + 1\<rparr>)"
  by (simp add: list_packages_for_environment_def list_packages_body_def Let_def
      fresh_packages_def)

lemma lister_cases:
  obtains (hit) obj where "cache st env = Some obj"
      "list_packages_for_environment w env st
         = (Inr obj, st\<lparr>lister_calls := lister_calls st @ [env]\<rparr>)"
  | (fail) e where "cache st env = None" "store w (py_str (env_prefix w env)) = Inl e"
      "list_packages_for_environment w env st
         = (Inl e, st\<lparr>lister_calls := lister_calls st @ [env],
                        store_reads := store_reads st @ [env]\<rparr>)"
  | (miss) records where "cache st env = None"
      "store w (py_str (env_prefix w env)) = Inr records"
      "list_packages_for_environment w env st
     = (Inr (allocated st, fresh_packages w st records),
        st\<lparr>lister_calls := lister_calls st @ [env],
           store_reads := store_reads st @ [env],
           drawn := drawn st + length records,
           cache := (cache st)(env \<mapsto> (allocated st, fresh_packages w st records)),
           allocated := allocated st + 1\<rparr>)"
proof (cases "cache st env")
  case None
  then show ?thesis
    by (cases "store w (py_str (env_prefix w env))")
      (auto intro: fail miss simp: lister_fail lister_miss)
next
  case (Some obj)
  then show ?thesis by (auto intro: hit simp: lister_hit)
qed

lemma lister_calls_lister:
  "lister_calls (snd (list_packages_for_environment w env st)) = lister_calls st @ [env]"
  by (cases rule: lister_cases[of st env w]) simp_all

lemma lister_caches:
  assumes "list_packages_for_environment w e st = (Inr obj, st1)"
  shows "cache st1 e = Some obj"
proof (cases rule: lister_cases[of st e w])
  case (hit obj')
  then show ?thesis using assms by auto
next
  case (fail e')
  then show ?thesis using assms by simp
next
  case (miss records)
  then show ?thesis using assms by auto
qed

text \<open>What a freshly built list holds.\<close>

lemma records_of_map2:
  "length ds = length rs \<Longrightarrow> map p_record (map2 Package_init rs ds) = rs"
  by (induction ds rs rule: list_induct2) (simp_all add: Package_init_def)

lemma fresh_sorted: "sorted (map Package_name (fresh_packages w st rs))"
  by (simp add: fresh_packages_def)

lemma fresh_records: "image_mset p_record (mset (fresh_packages w st rs)) = mset rs"
proof -
  have "mset (map p_record (fresh_packages w st rs))
      = mset (map p_record
          (map2 Package_init rs (map (random w) [drawn st ..< drawn st + length rs])))"
    unfolding fresh_packages_def by (simp only: mset_map mset_sort)
  also have "\<dots> = mset rs"
    by (subst records_of_map2) simp_all
  finally show ?thesis by simp
qed

text \<open>Every step leaves the memo table and the reads alone, or changes them as a call
  of the lister does.\<close>

lemma get_logo_lister_fields:
  "cache (snd (get_logo w st)) = cache st"
  "store_reads (snd (get_logo w st)) = store_reads st"
  by (auto simp: get_logo_def get_logo_body_def Let_def split: option.splits sum.splits)

lemma show_package_table_fields:
  "cache (snd (show_package_table w node st))
     = cache (snd (list_packages_for_environment w (data node) st))"
  "store_reads (snd (show_package_table w node st))
     = store_reads (snd (list_packages_for_environment w (data node) st))"
  "lister_calls (snd (show_package_table w node st))
     = lister_calls (snd (list_packages_for_environment w (data node) st))"
  by (auto simp: show_package_table_def split: prod.splits sum.splits)

lemma handle_tree_click_state:
  "snd (snd (handle_tree_click w node st))
     = (if truthy (env_path (data node)) then snd (show_package_table w node st) else st)"
  by (auto simp: handle_tree_click_def split: prod.splits sum.splits)

lemma step_lister_fields:
  "(cache (step w ev st) = cache st \<and> store_reads (step w ev st) = store_reads st)
   \<or> (\<exists>env. cache (step w ev st) = cache (snd (list_packages_for_environment w env st))
          \<and> store_reads (step w ev st)
              = store_reads (snd (list_packages_for_environment w env st)))"
proof (cases ev)
  case (CallLister env)
  then show ?thesis by auto
next
  case LoadLogo
  then show ?thesis by (simp add: get_logo_lister_fields)
next
  case (Click node)
  then show ?thesis
    using show_package_table_fields[of w node st]
    by (cases "truthy (env_path (data node))") (auto simp: handle_tree_click_state)
next
  case KeyH
  then show ?thesis
    using get_logo_lister_fields[of w st]
    by (auto simp: action_display_logo_def split: prod.splits sum.splits)
qed

text \<open>The invariants hold at the start and are kept by every step.\<close>

lemma lister_cache_ok:
  assumes "cache_ok w st"
  shows "cache_ok w (snd (list_packages_for_environment w env st))"
proof (cases rule: lister_cases[of st env w])
  case (hit obj)
  then show ?thesis using assms by (simp add: cache_ok_def)
next
  case (fail e)
  then show ?thesis using assms by (simp add: cache_ok_def)
next
  case (miss records)
  then show ?thesis using assms
    by (auto simp: cache_ok_def fresh_sorted fresh_records)
qed

lemma lister_reads_ok:
  assumes "reads_ok w st"
  shows "reads_ok w (snd (list_packages_for_environment w env st))"
proof (cases rule: lister_cases[of st env w])
  case (hit obj)
  then show ?thesis using assms by (simp add: reads_ok_def)
next
  case (fail e)
  then show ?thesis using assms by (auto simp: reads_ok_def)
next
  case (miss records)
  then show ?thesis using assms by (auto simp: reads_ok_def)
qed

lemma lister_cache_mono:
  assumes "cache st e = Some obj"
  shows "cache (snd (list_packages_for_environment w env st)) e = Some obj"
proof (cases rule: lister_cases[of st env w])
  case (hit obj')
  then show ?thesis using assms by simp
next
  case (fail e')
  then show ?thesis using assms by simp
next
  case (miss records)
  then show ?thesis using assms by auto
qed

lemma step_cache_ok: "cache_ok w st \<Longrightarrow> cache_ok w (step w ev st)"
  using step_lister_fields[of w ev st] lister_cache_ok[of w st]
  unfolding cache_ok_def by metis

lemma step_reads_ok: "reads_ok w st \<Longrightarrow> reads_ok w (step w ev st)"
  using step_lister_fields[of w ev st] lister_reads_ok[of w st]
  unfolding reads_ok_def by metis

lemma step_cache_mono: "cache st e = Some obj \<Longrightarrow> cache (step w ev st) e = Some obj"
  using step_lister_fields[of w ev st] lister_cache_mono[of st e obj w]
  by metis

lemma run_cache_ok: "cache_ok w st \<Longrightarrow> cache_ok w (run w evs st)"
  unfolding run_def by (induction evs arbitrary: st) (simp_all add: step_cache_ok)

lemma run_reads_ok: "reads_ok w st \<Longrightarrow> reads_ok w (run w evs st)"
  unfolding run_def by (induction evs arbitrary: st) (simp_all add: step_reads_ok)

lemma run_cache_mono: "cache st e = Some obj \<Longrightarrow> cache (run w evs st) e = Some obj"
  unfolding run_def by (induction evs arbitrary: st) (simp_all add: step_cache_mono)

lemma initial_cache_ok: "cache_ok w initial_state"
  by (simp add: cache_ok_def initial_state_def)

lemma initial_reads_ok: "reads_ok w initial_state"
  by (simp add: reads_ok_def initial_state_def)

text \<open>The example host.\<close>

lemma example_store_base:
  "store example_world (py_str (env_prefix example_world base_env))
     = Inr [zlib_record, numpy_record]"
  by (simp add: example_world_def base_env_def)

lemma example_store_broken:
  "store example_world (py_str (env_prefix example_world broken_env))
     = Inl (StoreError (ascii ''CorruptedEnvironmentError''))"
  by (simp add: example_world_def broken_env_def)

lemma example_store_locked:
  "store example_world (py_str (env_prefix example_world locked_env))
     = Inl (StoreError (ascii ''PermissionError''))"
  by (simp add: example_world_def locked_env_def)

lemma example_fresh:
  "fresh_packages example_world initial_state [zlib_record, numpy_record] = example_packages"
  by (simp add: fresh_packages_def initial_state_def example_world_def Package_init_def
      Package_name_def numpy_record_def zlib_record_def example_packages_def upt_rec)

lemma example_first_call:
  "fst (list_packages_for_environment example_world base_env initial_state)
     = Inr (0, example_packages)"
proof -
  have "cache initial_state base_env = None" by (simp add: initial_state_def)
  from lister_miss[OF this example_store_base]
  show ?thesis by (simp add: example_fresh) (simp add: initial_state_def)
qed

text \<open>
  C1.  In every run, for an environment whose store can be read, the lister returns a
  list that is sorted by name in ascending order, that sorting by name leaves as it is,
  and that holds one package for each record of the store.
\<close>

theorem list_packages_sorted_by_name:
  assumes "store w (py_str (env_prefix w env)) = Inr records"
  shows "\<exists>a packages st'.
           list_packages_for_environment w env (run w evs initial_state)
             = (Inr (a, packages), st')
           \<and> sorted (map Package_name packages)
           \<and> sort_key Package_name packages = packages
           \<and> mset (map p_record packages) = mset records"
proof -
  let ?st = "run w evs initial_state"
  have ok: "cache_ok w ?st" by (rule run_cache_ok[OF initial_cache_ok])
  show ?thesis
  proof (cases rule: lister_cases[of ?st env w])
    case (hit obj)
    obtain a xs where obj: "obj = (a, xs)" by (cases obj)
    from ok hit(1) obj have "sorted (map Package_name xs)
        \<and> (\<exists>rs. store w (py_str (env_prefix w env)) = Inr rs
               \<and> mset (map p_record xs) = mset rs)"
      unfolding cache_ok_def by blast
    with assms have "sorted (map Package_name xs)" "mset (map p_record xs) = mset records"
      by auto
    then show ?thesis using hit(2) obj by (auto simp: sort_key_id_if_sorted)
  next
    case (fail e)
    then show ?thesis using assms by simp
  next
    case (miss rs)
    then have "rs = records" using assms by simp
    then show ?thesis using miss(3)
      by (auto simp: fresh_sorted fresh_records sort_key_id_if_sorted)
  qed
qed

theorem list_packages_sorted_by_name_witness:
  "store example_world (py_str (env_prefix example_world base_env))
     = Inr [zlib_record, numpy_record]
   \<and> fst (list_packages_for_environment example_world base_env initial_state)
       = Inr (0, example_packages)
   \<and> (\<exists>a packages st'.
         list_packages_for_environment example_world base_env
           (run example_world [] initial_state) = (Inr (a, packages), st')
         \<and> sorted (map Package_name packages)
         \<and> sort_key Package_name packages = packages
         \<and> mset (map p_record packages) = mset [zlib_record, numpy_record])"
  using list_packages_sorted_by_name[OF example_store_base, of "[]"] example_store_base
    example_first_call
  by blast

text \<open>
  C3 does not hold as stated: a read of the store that raises is not kept in the
  memo table, so the next call with the same environment reads the store again.  Two
  calls for the corrupted environment read its store twice.
\<close>

theorem failed_store_read_is_repeated:
  "count_list
     (store_reads (run example_world [CallLister broken_env, CallLister broken_env]
        initial_state))
     broken_env = 2"
proof -
  let ?st1 = "initial_state\<lparr>lister_calls := lister_calls initial_state @ [broken_env],
                    store_reads := store_reads initial_state @ [broken_env]\<rparr>"
  have c0: "cache initial_state broken_env = None" by (simp add: initial_state_def)
  have c1: "cache ?st1 broken_env = None" by (simp add: initial_state_def)
  have "run example_world [CallLister broken_env, CallLister broken_env] initial_state
      = ?st1\<lparr>lister_calls := lister_calls ?st1 @ [broken_env],
                    store_reads := store_reads ?st1 @ [broken_env]\<rparr>"
    by (simp add: run_def lister_fail[OF c0 example_store_broken]
        lister_fail[OF c1 example_store_broken])
  then show ?thesis by (simp add: initial_state_def)
qed

text \<open>
  C3, amended.  For environments \<open>e1\<close> and \<open>e2\<close> with the same name and path: once a call
  with \<open>e1\<close> has returned a list object, every later call with \<open>e2\<close> returns that same
  object and changes nothing but the record of calls (it reads no store and draws no
  random number); and in every run the store of an environment that can be read is read
  at most once.
\<close>

theorem lister_cache_by_value:
  assumes "env_name e1 = env_name e2" and "env_path e1 = env_path e2"
  shows "(list_packages_for_environment w e1 st = (Inr obj, st1) \<longrightarrow>
            list_packages_for_environment w e2 (run w evs st1)
              = (Inr obj,
                 (run w evs st1)\<lparr>lister_calls := lister_calls (run w evs st1) @ [e2]\<rparr>))
         \<and> (store w (py_str (env_prefix w e1)) = Inr records \<longrightarrow>
              count_list (store_reads (run w evs initial_state)) e2 \<le> 1)"
proof -
  have eq: "e1 = e2" using assms by (cases e1; cases e2) simp
  have a: "list_packages_for_environment w e1 st = (Inr obj, st1) \<Longrightarrow>
            list_packages_for_environment w e1 (run w evs st1)
              = (Inr obj,
                 (run w evs st1)\<lparr>lister_calls := lister_calls (run w evs st1) @ [e1]\<rparr>)"
    by (rule lister_hit[OF run_cache_mono[OF lister_caches]])
  have b: "store w (py_str (env_prefix w e1)) = Inr records \<Longrightarrow>
              count_list (store_reads (run w evs initial_state)) e1 \<le> 1"
    using run_reads_ok[OF initial_reads_ok, of w evs] by (auto simp: reads_ok_def)
  show ?thesis using a b unfolding eq by blast
qed

theorem lister_cache_by_value_witness:
  "env_name base_env = env_name base_env \<and> env_path base_env = env_path base_env
   \<and> fst (list_packages_for_environment example_world base_env initial_state)
       = Inr (0, example_packages)
   \<and> fst (list_packages_for_environment example_world base_env
            (run example_world [KeyH, CallLister broken_env]
               (snd (list_packages_for_environment example_world base_env initial_state))))
       = Inr (0, example_packages)
   \<and> store example_world (py_str (env_prefix example_world base_env))
       = Inr [zlib_record, numpy_record]
   \<and> count_list
        (store_reads (run example_world [CallLister base_env, CallLister base_env]
           initial_state))
        base_env \<le> 1"
proof -
  let ?st1 = "snd (list_packages_for_environment example_world base_env initial_state)"
  have h: "list_packages_for_environment example_world base_env initial_state
      = (Inr (0, example_packages), ?st1)"
    using example_first_call by (simp add: prod_eq_iff)
  note t = lister_cache_by_value[OF refl refl, of example_world base_env]
  from t[THEN conjunct1, rule_format, OF h, of "[KeyH, CallLister broken_env]"]
  have a: "fst (list_packages_for_environment example_world base_env
            (run example_world [KeyH, CallLister broken_env] ?st1))
       = Inr (0, example_packages)"
    by simp
  from t[THEN conjunct2, rule_format, OF example_store_base,
      of "[CallLister base_env, CallLister base_env]"]
  have b: "count_list
        (store_reads (run example_world [CallLister base_env, CallLister base_env]
           initial_state))
        base_env \<le> 1" .
  from a b example_first_call example_store_base show ?thesis by simp
qed

text \<open>
  C8 does not hold as stated: the lister has no condition of its own for a store
  that cannot be opened.  What the store raises comes out of the lister as it is (a
  different exception for a different failure) and out of the click handler, which
  stops before it updates the pane.
\<close>

theorem lister_forwards_store_exception:
  "fst (list_packages_for_environment example_world broken_env initial_state)
     = Inl (StoreError (ascii ''CorruptedEnvironmentError''))
   \<and> fst (list_packages_for_environment example_world locked_env initial_state)
       = Inl (StoreError (ascii ''PermissionError''))
   \<and> fst (handle_tree_click example_world broken_node initial_state)
       = Inl (StoreError (ascii ''CorruptedEnvironmentError''))
   \<and> package_list (snd (snd (handle_tree_click example_world broken_node initial_state)))
       = None"
proof -
  have c0: "cache initial_state broken_env = None" "cache initial_state locked_env = None"
    by (simp_all add: initial_state_def)
  have d: "data broken_node = broken_env" "truthy (env_path broken_env)"
    by (simp_all add: broken_node_def broken_env_def)
  show ?thesis
    using d
    by (simp add: lister_fail[OF c0(1) example_store_broken]
        lister_fail[OF c0(2) example_store_locked] handle_tree_click_def
        show_package_table_def)
      (simp add: initial_state_def)
qed

text \<open>
  C8, amended.  When the store of an environment cannot be opened and the environment is
  not in the memo table, the lister raises the exception of the store, unchanged, and
  keeps nothing in the memo table; the click handler on a node of that environment
  raises the same exception and leaves the node and the pane as they were.
\<close>

theorem store_failure_propagates:
  assumes "store w (py_str (env_prefix w env)) = Inl e" and "cache st env = None"
  shows "list_packages_for_environment w env st
           = (Inl e, st\<lparr>lister_calls := lister_calls st @ [env],
                          store_reads := store_reads st @ [env]\<rparr>)
         \<and> cache (snd (list_packages_for_environment w env st)) = cache st
         \<and> (data node = env \<and> truthy (env_path env) \<longrightarrow>
              handle_tree_click w node st
                = (Inl e, node, st\<lparr>lister_calls := lister_calls st @ [env],
                                     store_reads := store_reads st @ [env]\<rparr>))"
  using assms
  by (auto simp: lister_fail handle_tree_click_def show_package_table_def)

theorem store_failure_propagates_witness:
  "store example_world (py_str (env_prefix example_world broken_env))
     = Inl (StoreError (ascii ''CorruptedEnvironmentError''))
   \<and> cache initial_state broken_env = None
   \<and> data broken_node = broken_env \<and> truthy (env_path broken_env)
   \<and> list_packages_for_environment example_world broken_env initial_state
       = (Inl (StoreError (ascii ''CorruptedEnvironmentError'')),
          initial_state\<lparr>lister_calls := lister_calls initial_state @ [broken_env],
                          store_reads := store_reads initial_state @ [broken_env]\<rparr>)
   \<and> handle_tree_click example_world broken_node initial_state
       = (Inl (StoreError (ascii ''CorruptedEnvironmentError'')), broken_node,
          initial_state\<lparr>lister_calls := lister_calls initial_state @ [broken_env],
                          store_reads := store_reads initial_state @ [broken_env]\<rparr>)"
proof -
  have c0: "cache initial_state broken_env = None" by (simp add: initial_state_def)
  have d: "data broken_node = broken_env" "truthy (env_path broken_env)"
    by (simp_all add: broken_node_def broken_env_def)
  show ?thesis
    using store_failure_propagates[OF example_store_broken c0, of broken_node] c0 d
      example_store_broken
    by simp
qed

text \<open>
  C5.  A click on a node whose environment has no path (none, or the empty string), as
  the root node, changes nothing and calls the lister for nothing; a click calls the
  lister at most once, with the environment of the node, and only when its path is
  set.
\<close>

theorem click_without_path_never_lists:
  "(\<not> truthy (env_path (data node)) \<longrightarrow> handle_tree_click w node st = (Inr (), node, st))
   \<and> lister_calls (snd (snd (handle_tree_click w node st)))
       = lister_calls st @ (if truthy (env_path (data node)) then [data node] else [])"
  by (simp add: handle_tree_click_state show_package_table_fields lister_calls_lister)
    (simp add: handle_tree_click_def)

theorem click_without_path_never_lists_witness:
  "\<not> truthy (env_path (data root_node))
   \<and> handle_tree_click example_world root_node initial_state
       = (Inr (), root_node, initial_state)
   \<and> lister_calls (snd (snd (handle_tree_click example_world root_node initial_state))) = []
   \<and> truthy (env_path (data base_node))
   \<and> lister_calls (snd (snd (handle_tree_click example_world base_node initial_state)))
       = [base_env]"
proof -
  have r: "\<not> truthy (env_path (data root_node))"
    by (simp add: root_node_def Environment0_def)
  have b: "truthy (env_path (data base_node))" "data base_node = base_env"
    by (simp_all add: base_node_def base_env_def)
  have l: "lister_calls initial_state = []" by (simp add: initial_state_def)
  show ?thesis
    using click_without_path_never_lists[of root_node example_world initial_state]
      click_without_path_never_lists[of base_node example_world initial_state] r b l
    by simp
qed

section \<open>Properties of the application\<close>

subsection \<open>Splitting and joining lines\<close>

lemma split_on_nonempty: "split_on c s \<noteq> []"
  by (induction s) (auto split: list.splits)

lemma split_on_no_sep: "l \<in> set (split_on c s) \<Longrightarrow> c \<notin> set l"
  by (induction s arbitrary: l) (auto split: if_splits list.splits)

lemma split_on_line: "c \<notin> set l \<Longrightarrow> split_on c l = [l]"
  by (induction l) auto

lemma split_on_append: "c \<notin> set l \<Longrightarrow> split_on c (l @ c # r) = l # split_on c r"
  by (induction l) auto

lemma split_on_join:
  "ls \<noteq> [] \<Longrightarrow> \<forall>l\<in>set ls. c \<notin> set l \<Longrightarrow> split_on c (join c ls) = ls"
  by (induction c ls rule: join.induct) (simp_all add: split_on_line split_on_append)

lemma py_max_Max: "xs \<noteq> [] \<Longrightarrow> py_max xs = Inr (Max (set xs))"
  by (cases xs) (simp_all add: Max.set_eq_fold[symmetric])

lemma py_max_lines: "py_max (map length (split_on NEWLINE s)) = Inr (max_line_length s)"
  by (simp add: py_max_Max split_on_nonempty max_line_length_def)

lemma length_le_max: "l \<in> set (split_on NEWLINE s) \<Longrightarrow> length l \<le> max_line_length s"
  by (simp add: max_line_length_def)

subsection \<open>The logo\<close>

lemma get_logo_body_ok:
  "logo_asset w = Some s \<Longrightarrow>
   get_logo_body w st = (Inr (logo_of s), st\<lparr>logo_reads := logo_reads st + 1\<rparr>)"
  by (simp add: get_logo_body_def py_max_lines logo_of_def Let_def)

lemma get_logo_hit: "logo_cache st = Some t \<Longrightarrow> get_logo w st = (Inr t, st)"
  by (simp add: get_logo_def)

lemma get_logo_fail:
  "logo_cache st = None \<Longrightarrow> logo_asset w = None \<Longrightarrow>
   get_logo w st = (Inl FileNotFoundError, st\<lparr>logo_reads := logo_reads st + 1\<rparr>)"
  by (simp add: get_logo_def get_logo_body_def)

lemma get_logo_miss:
  "logo_cache st = None \<Longrightarrow> logo_asset w = Some s \<Longrightarrow>
   get_logo w st = (Inr (logo_of s),
     st\<lparr>logo_reads := logo_reads st + 1, logo_cache := Some (logo_of s)\<rparr>)"
  by (simp add: get_logo_def get_logo_body_ok)

lemma lister_logo_fields:
  "logo_cache (snd (list_packages_for_environment w env st)) = logo_cache st"
  "logo_reads (snd (list_packages_for_environment w env st)) = logo_reads st"
  by (cases rule: lister_cases[of st env w]; simp)+

lemma step_logo_hit:
  assumes "logo_cache st = Some t"
  shows "logo_cache (step w ev st) = Some t \<and> logo_reads (step w ev st) = logo_reads st"
proof (cases ev)
  case (CallLister env)
  then show ?thesis using assms by (simp add: lister_logo_fields)
next
  case LoadLogo
  then show ?thesis using assms by (simp add: get_logo_hit)
next
  case (Click node)
  then show ?thesis using assms lister_logo_fields[of w "data node" st]
    by (auto simp: handle_tree_click_def show_package_table_def split: prod.splits sum.splits)
next
  case KeyH
  then show ?thesis using assms by (simp add: action_display_logo_def get_logo_hit)
qed

lemma run_logo_hit:
  "logo_cache st = Some t \<Longrightarrow>
   logo_cache (run w evs st) = Some t \<and> logo_reads (run w evs st) = logo_reads st"
  unfolding run_def
proof (induction evs arbitrary: st)
  case Nil
  then show ?case by simp
next
  case (Cons ev evs)
  from step_logo_hit[OF Cons.prems, of w ev]
  show ?case using Cons.IH[of "step w ev st"] by simp
qed

lemma get_logo_ok: "logo_ok w st \<Longrightarrow> logo_ok w (snd (get_logo w st))"
proof (cases "logo_cache st")
  case None
  assume "logo_ok w st"
  show ?thesis
    by (cases "logo_asset w") (simp_all add: get_logo_fail get_logo_miss None logo_ok_def)
next
  case (Some t)
  assume "logo_ok w st"
  then show ?thesis by (simp add: get_logo_hit Some)
qed

lemma step_logo_ok:
  assumes "logo_ok w st"
  shows "logo_ok w (step w ev st)"
proof (cases ev)
  case (CallLister env)
  then show ?thesis using assms by (simp add: logo_ok_def lister_logo_fields)
next
  case LoadLogo
  then show ?thesis using assms by (simp add: get_logo_ok)
next
  case (Click node)
  then show ?thesis using assms lister_logo_fields[of w "data node" st]
    by (auto simp: logo_ok_def handle_tree_click_def show_package_table_def
        split: prod.splits sum.splits)
next
  case KeyH
  then show ?thesis using get_logo_ok[OF assms]
    by (auto simp: logo_ok_def action_display_logo_def split: prod.splits sum.splits)
qed

lemma run_logo_ok: "logo_ok w st \<Longrightarrow> logo_ok w (run w evs st)"
  unfolding run_def by (induction evs arbitrary: st) (simp_all add: step_logo_ok)

lemma initial_logo_ok: "logo_ok w initial_state"
  by (simp add: logo_ok_def initial_state_def)

lemma padded_no_newline:
  "l \<in> set (pad_lines m (split_on NEWLINE s)) \<Longrightarrow> NEWLINE \<notin> set l"
  by (auto simp: pad_lines_def format_s_def NEWLINE_def ZERO_WIDTH_SPACE_def
      dest: split_on_no_sep)

lemma split_on_subset: "l \<in> set (split_on c s) \<Longrightarrow> set l \<subseteq> set s"
proof (induction s arbitrary: l)
  case Nil
  then show ?case by simp
next
  case (Cons a s)
  obtain m ms where ms: "split_on c s = m # ms"
    using split_on_nonempty[of c s] by (cases "split_on c s") auto
  have "set m \<subseteq> set s" "\<forall>k\<in>set ms. set k \<subseteq> set s"
    using Cons.IH ms by auto
  then show ?case using Cons.prems ms by (auto split: if_splits)
qed

lemma strip_control_codes_join:
  "strip_control_codes (join NEWLINE ls) = join NEWLINE (map strip_control_codes ls)"
proof (induction NEWLINE ls rule: join.induct)
  case 1
  then show ?case by (simp add: strip_control_codes_def)
next
  case (2 l)
  then show ?case by simp
next
  case (3 l m ls)
  have "strip_control_codes [NEWLINE] = [NEWLINE]"
    by (simp add: strip_control_codes_def STRIP_CONTROL_CODES_def NEWLINE_def)
  then have "strip_control_codes (l @ NEWLINE # join NEWLINE (m # ls))
      = strip_control_codes l @ NEWLINE # strip_control_codes (join NEWLINE (m # ls))"
    using strip_control_codes_append[of l "[NEWLINE] @ join NEWLINE (m # ls)"]
      strip_control_codes_append[of "[NEWLINE]" "join NEWLINE (m # ls)"]
    by simp
  with 3 show ?case by simp
qed

lemma stripped_no_newline:
  "NEWLINE \<notin> set l \<Longrightarrow> NEWLINE \<notin> set (strip_control_codes l)"
  by (simp add: strip_control_codes_def)

lemma lines_of_logo:
  "split_on NEWLINE (plain (logo_of s))
     = map strip_control_codes (pad_lines (max_line_length s) (split_on NEWLINE s))"
proof -
  let ?ls = "map strip_control_codes (pad_lines (max_line_length s) (split_on NEWLINE s))"
  have ne: "?ls \<noteq> []"
    by (simp add: pad_lines_def split_on_nonempty)
  have nn: "\<forall>l\<in>set ?ls. NEWLINE \<notin> set l"
    by (auto dest: padded_no_newline simp: strip_control_codes_def)
  have "plain (logo_of s) = join NEWLINE ?ls"
    by (simp add: logo_of_def Text_new_def strip_control_codes_join)
  then show ?thesis using split_on_join[OF ne nn] by simp
qed

lemma padded_clean:
  assumes "\<forall>c\<in>set s. c \<notin> set STRIP_CONTROL_CODES"
    and "l \<in> set (pad_lines m (split_on NEWLINE s))"
  shows "strip_control_codes l = l"
proof (rule strip_control_codes_id, rule ballI)
  fix c assume c: "c \<in> set l"
  from assms(2) obtain line where line: "line \<in> set (split_on NEWLINE s)"
    and l: "l = [ZERO_WIDTH_SPACE] @ format_s m line @ [ZERO_WIDTH_SPACE]"
    by (auto simp: pad_lines_def)
  from c l have "c = ZERO_WIDTH_SPACE \<or> c = 0x20 \<or> c \<in> set line"
    by (auto simp: format_s_def)
  moreover have "set line \<subseteq> set s" by (rule split_on_subset[OF line])
  ultimately show "c \<notin> set STRIP_CONTROL_CODES"
    using assms(1) by (auto simp: STRIP_CONTROL_CODES_def ZERO_WIDTH_SPACE_def)
qed

lemma lines_of_clean_logo:
  assumes "\<forall>c\<in>set s. c \<notin> set STRIP_CONTROL_CODES"
  shows "split_on NEWLINE (plain (logo_of s))
     = pad_lines (max_line_length s) (split_on NEWLINE s)"
  unfolding lines_of_logo using padded_clean[OF assms] by (simp add: map_idI)

lemma padded_length:
  "l \<in> set (pad_lines (max_line_length s) (split_on NEWLINE s)) \<Longrightarrow>
   length l = max_line_length s + 2"
  by (auto simp: pad_lines_def format_s_def dest: length_le_max)

lemma cell_len_ones: "\<forall>c\<in>set l. cell_size c = 1 \<Longrightarrow> cell_len cell_size l = length l"
  by (induction l) (simp_all add: cell_len_def)

lemma cell_len_append: "cell_len cell_size (a @ b) = cell_len cell_size a + cell_len cell_size b"
  by (simp add: cell_len_def)

lemma padded_cell_len:
  assumes "\<forall>c\<in>set s. c \<noteq> NEWLINE \<longrightarrow> cell_size c = 1"
    and "cell_size 0x20 = 1" and "cell_size ZERO_WIDTH_SPACE = 0"
    and "l \<in> set (pad_lines (max_line_length s) (split_on NEWLINE s))"
  shows "cell_len cell_size l = max_line_length s"
proof -
  from assms(4) obtain line where line: "line \<in> set (split_on NEWLINE s)"
    and l: "l = [ZERO_WIDTH_SPACE] @ format_s (max_line_length s) line @ [ZERO_WIDTH_SPACE]"
    by (auto simp: pad_lines_def)
  have "\<forall>c\<in>set line. cell_size c = 1"
    using split_on_subset[OF line] split_on_no_sep[OF line] assms(1) by auto
  then have "\<forall>c\<in>set (format_s (max_line_length s) line). cell_size c = 1"
    using assms(2) by (auto simp: format_s_def)
  then have "cell_len cell_size (format_s (max_line_length s) line)
      = length (format_s (max_line_length s) line)"
    by (rule cell_len_ones)
  also have "\<dots> = max_line_length s"
    using length_le_max[OF line] by (simp add: format_s_def)
  finally show ?thesis
    unfolding l cell_len_append using assms(3) by (simp add: cell_len_def)
qed

lemma get_logo_result:
  assumes "logo_ok w st" and "get_logo w st = (Inr t, st1)"
  shows "(\<exists>s. logo_asset w = Some s \<and> t = logo_of s) \<and> logo_cache st1 = Some t"
proof (cases "logo_cache st")
  case None
  then show ?thesis using assms(2)
    by (cases "logo_asset w") (auto simp: get_logo_fail get_logo_miss)
next
  case (Some t')
  then show ?thesis using assms by (auto simp: get_logo_hit logo_ok_def)
qed

lemma example_lines:
  "split_on NEWLINE (ascii ''ab'' @ [NEWLINE] @ ascii ''c'') = [ascii ''ab'', ascii ''c'']"
  by (simp add: NEWLINE_def)

lemma example_max_line_length: "max_line_length (ascii ''ab'' @ [NEWLINE] @ ascii ''c'') = 2"
  unfolding max_line_length_def example_lines by simp

lemma example_logo_of: "logo_of (ascii ''ab'' @ [NEWLINE] @ ascii ''c'') = example_logo"
  unfolding logo_of_def max_line_length_def example_lines
  by (simp add: pad_lines_def format_s_def Text_new_def example_logo_def Let_def
      strip_control_codes_def STRIP_CONTROL_CODES_def NEWLINE_def ZERO_WIDTH_SPACE_def)

lemma example_get_logo:
  "fst (get_logo example_world initial_state) = Inr example_logo"
proof -
  have c: "logo_cache initial_state = None" by (simp add: initial_state_def)
  have a: "logo_asset example_world = Some (ascii ''ab'' @ [NEWLINE] @ ascii ''c'')"
    by (simp add: example_world_def)
  show ?thesis unfolding get_logo_miss[OF c a] example_logo_of by simp
qed

text \<open>
  C6.  In every run, when \<open>get_logo\<close> returns a text, the logo file has been loaded and
  the lines of the text are the lines of the file, each filled with spaces up to the
  greatest line length and put between two zero width spaces, as the rendering library
  keeps them (without the five control codes).  For a file without these control codes
  the lines are exactly the padded lines and all have the same length; when moreover
  every character of the file takes one terminal cell, as the space does, and the zero
  width space takes none, all lines have the same visible width, the greatest line
  length.  Every later call returns the same text and leaves the state as it is, so the
  file is not read again.
\<close>

theorem get_logo_padded_and_cached:
  assumes "get_logo w (run w evs initial_state) = (Inr t, st1)"
  shows "\<exists>s. logo_asset w = Some s
     \<and> split_on NEWLINE (plain t)
         = map (\<lambda>line. strip_control_codes
                        ([ZERO_WIDTH_SPACE] @ line
                         @ replicate (max_line_length s - length line) 0x20
                         @ [ZERO_WIDTH_SPACE]))
             (split_on NEWLINE s)
     \<and> ((\<forall>c\<in>set s. c \<notin> set STRIP_CONTROL_CODES) \<longrightarrow>
          split_on NEWLINE (plain t)
            = map (\<lambda>line. [ZERO_WIDTH_SPACE] @ line
                          @ replicate (max_line_length s - length line) 0x20
                          @ [ZERO_WIDTH_SPACE])
                (split_on NEWLINE s)
          \<and> (\<forall>l \<in> set (split_on NEWLINE (plain t)). length l = max_line_length s + 2))
     \<and> ((\<forall>c\<in>set s. c \<notin> set STRIP_CONTROL_CODES \<and> (c \<noteq> NEWLINE \<longrightarrow> cell_size c = 1))
          \<and> cell_size 0x20 = 1 \<and> cell_size ZERO_WIDTH_SPACE = 0 \<longrightarrow>
          (\<forall>l \<in> set (split_on NEWLINE (plain t)). cell_len cell_size l = max_line_length s))
     \<and> (\<forall>later. get_logo w (run w later st1) = (Inr t, run w later st1)
                 \<and> logo_reads (run w later st1) = logo_reads st1)"
proof -
  from get_logo_result[OF run_logo_ok[OF initial_logo_ok] assms]
  obtain s where s: "logo_asset w = Some s" "t = logo_of s" and c: "logo_cache st1 = Some t"
    by blast
  have 1: "split_on NEWLINE (plain t)
         = map (\<lambda>line. strip_control_codes
                        ([ZERO_WIDTH_SPACE] @ line
                         @ replicate (max_line_length s - length line) 0x20
                         @ [ZERO_WIDTH_SPACE]))
             (split_on NEWLINE s)"
    unfolding s(2) lines_of_logo by (simp add: pad_lines_def format_s_def)
  have 2: "(\<forall>c\<in>set s. c \<notin> set STRIP_CONTROL_CODES) \<longrightarrow>
          split_on NEWLINE (plain t)
            = map (\<lambda>line. [ZERO_WIDTH_SPACE] @ line
                          @ replicate (max_line_length s - length line) 0x20
                          @ [ZERO_WIDTH_SPACE])
                (split_on NEWLINE s)
          \<and> (\<forall>l \<in> set (split_on NEWLINE (plain t)). length l = max_line_length s + 2)"
  proof
    assume h: "\<forall>c\<in>set s. c \<notin> set STRIP_CONTROL_CODES"
    have a: "split_on NEWLINE (plain t) = pad_lines (max_line_length s) (split_on NEWLINE s)"
      unfolding s(2) by (rule lines_of_clean_logo[OF h])
    have b: "\<forall>l \<in> set (split_on NEWLINE (plain t)). length l = max_line_length s + 2"
      unfolding a by (simp add: padded_length)
    from a b show "split_on NEWLINE (plain t)
            = map (\<lambda>line. [ZERO_WIDTH_SPACE] @ line
                          @ replicate (max_line_length s - length line) 0x20
                          @ [ZERO_WIDTH_SPACE])
                (split_on NEWLINE s)
          \<and> (\<forall>l \<in> set (split_on NEWLINE (plain t)). length l = max_line_length s + 2)"
      by (simp add: pad_lines_def format_s_def)
  qed
  have 3: "(\<forall>c\<in>set s. c \<notin> set STRIP_CONTROL_CODES \<and> (c \<noteq> NEWLINE \<longrightarrow> cell_size c = 1))
          \<and> cell_size 0x20 = 1 \<and> cell_size ZERO_WIDTH_SPACE = 0 \<longrightarrow>
          (\<forall>l \<in> set (split_on NEWLINE (plain t)). cell_len cell_size l = max_line_length s)"
  proof
    assume h: "(\<forall>c\<in>set s. c \<notin> set STRIP_CONTROL_CODES \<and> (c \<noteq> NEWLINE \<longrightarrow> cell_size c = 1))
          \<and> cell_size 0x20 = 1 \<and> cell_size ZERO_WIDTH_SPACE = 0"
    then have h1: "\<forall>c\<in>set s. c \<notin> set STRIP_CONTROL_CODES"
      and h2: "\<forall>c\<in>set s. c \<noteq> NEWLINE \<longrightarrow> cell_size c = 1"
      and h3: "cell_size 0x20 = 1" and h4: "cell_size ZERO_WIDTH_SPACE = 0"
      by auto
    have a: "split_on NEWLINE (plain t) = pad_lines (max_line_length s) (split_on NEWLINE s)"
      unfolding s(2) by (rule lines_of_clean_logo[OF h1])
    show "\<forall>l \<in> set (split_on NEWLINE (plain t)). cell_len cell_size l = max_line_length s"
      unfolding a using padded_cell_len[OF h2 h3 h4] by blast
  qed
  have 4: "\<forall>later. get_logo w (run w later st1) = (Inr t, run w later st1)
                 \<and> logo_reads (run w later st1) = logo_reads st1"
    using run_logo_hit[OF c] by (simp add: get_logo_hit)
  from s(1) 1 2 3 4 show ?thesis by blast
qed

theorem get_logo_padded_and_cached_witness:
  "fst (get_logo example_world (run example_world [] initial_state)) = Inr example_logo
   \<and> logo_asset example_world = Some (ascii ''ab'' @ [NEWLINE] @ ascii ''c'')
   \<and> split_on NEWLINE (plain example_logo)
       = [[ZERO_WIDTH_SPACE] @ ascii ''ab'' @ [ZERO_WIDTH_SPACE],
          [ZERO_WIDTH_SPACE] @ ascii ''c '' @ [ZERO_WIDTH_SPACE]]
   \<and> map (cell_len (\<lambda>c. if c = ZERO_WIDTH_SPACE then 0 else 1))
        (split_on NEWLINE (plain example_logo)) = [2, 2]
   \<and> fst (get_logo example_world
            (run example_world [CallLister base_env, KeyH]
               (snd (get_logo example_world (run example_world [] initial_state)))))
       = Inr example_logo
   \<and> logo_reads (run example_world [CallLister base_env, KeyH]
         (snd (get_logo example_world (run example_world [] initial_state))))
       = logo_reads (snd (get_logo example_world (run example_world [] initial_state)))"
proof -
  let ?st1 = "snd (get_logo example_world (run example_world [] initial_state))"
  let ?a = "ascii ''ab'' @ [NEWLINE] @ ascii ''c''"
  let ?cs = "\<lambda>c::nat. if c = ZERO_WIDTH_SPACE then 0 else (1::nat)"
  have f: "fst (get_logo example_world (run example_world [] initial_state))
      = Inr example_logo"
    using example_get_logo by (simp add: run_def)
  then have h: "get_logo example_world (run example_world [] initial_state)
      = (Inr example_logo, ?st1)"
    by (simp add: prod_eq_iff)
  have a: "logo_asset example_world = Some ?a" by (simp add: example_world_def)
  have clean: "\<forall>c\<in>set ?a. c \<notin> set STRIP_CONTROL_CODES \<and> (c \<noteq> NEWLINE \<longrightarrow> ?cs c = 1)"
    by (simp add: STRIP_CONTROL_CODES_def NEWLINE_def ZERO_WIDTH_SPACE_def)
  have cs: "?cs 0x20 = 1" "?cs ZERO_WIDTH_SPACE = 0"
    by (simp_all add: ZERO_WIDTH_SPACE_def)
  have clean1: "\<forall>c\<in>set ?a. c \<notin> set STRIP_CONTROL_CODES"
    by (simp add: STRIP_CONTROL_CODES_def NEWLINE_def)
  from get_logo_padded_and_cached[OF h, of ?cs]
  obtain s where s: "logo_asset example_world = Some s"
    and L: "(\<forall>c\<in>set s. c \<notin> set STRIP_CONTROL_CODES) \<longrightarrow>
          split_on NEWLINE (plain example_logo)
            = map (\<lambda>line. [ZERO_WIDTH_SPACE] @ line
                          @ replicate (max_line_length s - length line) 0x20
                          @ [ZERO_WIDTH_SPACE])
                (split_on NEWLINE s)
          \<and> (\<forall>l \<in> set (split_on NEWLINE (plain example_logo)).
                length l = max_line_length s + 2)"
    and W: "(\<forall>c\<in>set s. c \<notin> set STRIP_CONTROL_CODES \<and> (c \<noteq> NEWLINE \<longrightarrow> ?cs c = 1))
          \<and> ?cs 0x20 = 1 \<and> ?cs ZERO_WIDTH_SPACE = 0 \<longrightarrow>
          (\<forall>l \<in> set (split_on NEWLINE (plain example_logo)).
             cell_len ?cs l = max_line_length s)"
    and lt: "\<forall>later. get_logo example_world (run example_world later ?st1)
                   = (Inr example_logo, run example_world later ?st1)
                 \<and> logo_reads (run example_world later ?st1) = logo_reads ?st1"
    by blast
  have sa: "s = ?a" using s a by simp
  from L[unfolded sa, THEN mp, OF clean1]
  have lines: "split_on NEWLINE (plain example_logo)
            = map (\<lambda>line. [ZERO_WIDTH_SPACE] @ line
                          @ replicate (max_line_length ?a - length line) 0x20
                          @ [ZERO_WIDTH_SPACE])
                (split_on NEWLINE ?a)"
    by (rule conjunct1)
  from W[unfolded sa, THEN mp, OF conjI[OF clean conjI[OF cs]]]
  have width: "\<forall>l \<in> set (split_on NEWLINE (plain example_logo)).
        cell_len ?cs l = max_line_length ?a" .
  from lt[rule_format, of "[CallLister base_env, KeyH]"]
  have later: "get_logo example_world (run example_world [CallLister base_env, KeyH] ?st1)
        = (Inr example_logo, run example_world [CallLister base_env, KeyH] ?st1)"
      "logo_reads (run example_world [CallLister base_env, KeyH] ?st1) = logo_reads ?st1"
    by (rule conjunct1, rule conjunct2)
  have l: "split_on NEWLINE (plain example_logo)
       = [[ZERO_WIDTH_SPACE] @ ascii ''ab'' @ [ZERO_WIDTH_SPACE],
          [ZERO_WIDTH_SPACE] @ ascii ''c '' @ [ZERO_WIDTH_SPACE]]"
    unfolding lines example_lines example_max_line_length by simp
  have w: "map (cell_len ?cs) (split_on NEWLINE (plain example_logo)) = [2, 2]"
    using width unfolding example_max_line_length l by simp
  from f a l w later show ?thesis by simp
qed

subsection \<open>The labels of the tree\<close>

lemma label_string_by_rule:
  "label_string w node hov s
     = label_text_by_rule (env_rpath w (data node)) (env_name (data node)) hov s"
  by (cases "env_rpath w (data node)"; cases "env_name (data node)")
    (auto simp: label_string_def label_text_by_rule_def py_or_def)

lemma circle_clean:
  "strip_control_codes [BLACK_CIRCLE] = [BLACK_CIRCLE]"
  "strip_control_codes [WHITE_CIRCLE] = [WHITE_CIRCLE]"
  "strip_control_codes [0x20] = [0x20]"
  "strip_control_codes [BLACK_CIRCLE, 0x20] = [BLACK_CIRCLE, 0x20]"
  "strip_control_codes [WHITE_CIRCLE, 0x20] = [WHITE_CIRCLE, 0x20]"
  by (simp_all add: strip_control_codes_def STRIP_CONTROL_CODES_def BLACK_CIRCLE_def
      WHITE_CIRCLE_def)

text \<open>
  C7.  For a node with a string label, the rendered text is the circle, a space and the
  label text, where the circle is black when the node is expanded and white otherwise,
  and the label text is the \<open>rpath\<close> of the environment when the node is hovered, else
  its name when that is set, else its \<open>rpath\<close>, and the string label of the node when
  what was chosen is not set; the rendering library keeps the label text without the
  five control codes, so as it is when it has none.  A position of the rendered text is
  bold exactly when the node is hovered and the position lies in the label text.
\<close>

theorem render_label_text_bold_icon:
  assumes "label node = StrLabel s"
  shows "plain (render_label w node ex cur hov foc)
       = (if ex then [BLACK_CIRCLE] else [WHITE_CIRCLE]) @ ascii '' ''
         @ strip_control_codes
             (label_text_by_rule (env_rpath w (data node)) (env_name (data node)) hov s)
     \<and> ((\<forall>c\<in>set (label_text_by_rule (env_rpath w (data node)) (env_name (data node)) hov s).
            c \<notin> set STRIP_CONTROL_CODES) \<longrightarrow>
          plain (render_label w node ex cur hov foc)
            = (if ex then [BLACK_CIRCLE] else [WHITE_CIRCLE]) @ ascii '' ''
              @ label_text_by_rule (env_rpath w (data node)) (env_name (data node)) hov s)
     \<and> (\<forall>i. styled_at (Style (ascii ''bold'')) (render_label w node ex cur hov foc) i
            \<longleftrightarrow> hov \<and> 2 \<le> i \<and> i < length (plain (render_label w node ex cur hov foc)))"
proof -
  define r where "r = label_text_by_rule (env_rpath w (data node)) (env_name (data node)) hov s"
  define t where "t = strip_control_codes r"
  define circle where "circle = (if ex then [BLACK_CIRCLE] else [WHITE_CIRCLE])"
  define icon where "icon = add_str (Text_new circle [] None (Some True)) (ascii '' '')"
  define lab where "lab = (if hov then stylize (ascii ''bold'') (Text_new r [] None (Some True))
                           else Text_new r [] None (Some True))"
  define meta where "meta = Meta (ascii ''click_label('' @ str_nat (node_id node) @ ascii '')'')
                      (node_id node) (is_cursor node)"
  have cc: "strip_control_codes circle = circle"
    by (simp add: circle_def circle_clean)
  have ip: "plain icon = circle @ [0x20]"
    unfolding icon_def plain_add_str plain_Text_new strip_control_codes_idem cc
    by (simp add: circle_clean)
  have isp: "spans icon = []" by (simp add: icon_def spans_add_str spans_Text_new)
  have ic: "strip_control_codes (plain icon) = plain icon"
    unfolding ip strip_control_codes_append cc by (simp add: circle_clean)
  have il: "length (plain icon) = 2" unfolding ip by (simp add: circle_def)
  have lp: "plain lab = t" by (simp add: lab_def t_def stylize_def Text_new_def)
  have ls: "spans lab = (if hov \<and> t \<noteq> [] then [(0, length t, Style (ascii ''bold''))] else [])"
    by (simp add: lab_def t_def stylize_def Text_new_def)
  have lb: "base_style lab = []" by (simp add: lab_def stylize_def Text_new_def)
  have rl: "render_label w node ex cur hov foc = apply_meta meta (add_text icon lab)"
    using assms
    by (simp add: render_label_def Let_def label_string_by_rule meta_def icon_def lab_def
        circle_def r_def)
  have ap: "plain (add_text icon lab) = circle @ [0x20] @ t"
    unfolding plain_add_text ic lp by (simp add: ip)
  have asp: "spans (add_text icon lab)
      = (if hov \<and> t \<noteq> [] then [(2, 2 + length t, Style (ascii ''bold''))] else [])"
    unfolding add_text_def Let_def plain_copy_text ic il lp lb ls
    by (simp add: shift_span_def spans_copy_text isp)
  have ne: "plain (add_text icon lab) \<noteq> []" unfolding ap by (simp add: circle_def)
  have p: "plain (render_label w node ex cur hov foc) = circle @ [0x20] @ t"
    unfolding rl apply_meta_def using ap ne by simp
  have sp: "spans (render_label w node ex cur hov foc)
      = (if hov \<and> t \<noteq> [] then [(2, 2 + length t, Style (ascii ''bold''))] else [])
        @ [(0, 2 + length t, meta)]"
    unfolding rl apply_meta_def using ap asp ne by (simp add: circle_def)
  have len: "length (plain (render_label w node ex cur hov foc)) = 2 + length t"
    unfolding p by (simp add: circle_def)
  have nb: "meta \<noteq> Style (ascii ''bold'')" by (simp add: meta_def)
  have b: "\<forall>i. styled_at (Style (ascii ''bold'')) (render_label w node ex cur hov foc) i
            \<longleftrightarrow> hov \<and> 2 \<le> i \<and> i < length (plain (render_label w node ex cur hov foc))"
    unfolding styled_at_def sp len using nb by auto
  have p': "plain (render_label w node ex cur hov foc)
       = (if ex then [BLACK_CIRCLE] else [WHITE_CIRCLE]) @ ascii '' ''
         @ strip_control_codes
             (label_text_by_rule (env_rpath w (data node)) (env_name (data node)) hov s)"
    unfolding p t_def r_def circle_def by simp
  have q: "(\<forall>c\<in>set (label_text_by_rule (env_rpath w (data node)) (env_name (data node)) hov s).
            c \<notin> set STRIP_CONTROL_CODES) \<longrightarrow>
          plain (render_label w node ex cur hov foc)
            = (if ex then [BLACK_CIRCLE] else [WHITE_CIRCLE]) @ ascii '' ''
              @ label_text_by_rule (env_rpath w (data node)) (env_name (data node)) hov s"
    using p' by (simp add: strip_control_codes_id)
  show ?thesis using p' q b by blast
qed

theorem render_label_text_bold_icon_witness:
  "label base_node = StrLabel (ascii ''base'')
   \<and> plain (render_label example_world base_node False False False True)
       = [WHITE_CIRCLE] @ ascii '' base''
   \<and> plain (render_label example_world base_node True False True True)
       = [BLACK_CIRCLE] @ ascii '' /opt/conda''
   \<and> styled_at (Style (ascii ''bold''))
        (render_label example_world base_node True False True True) 2
   \<and> \<not> styled_at (Style (ascii ''bold''))
        (render_label example_world base_node False False False True) 2
   \<and> label root_node = StrLabel (ascii ''envs'')
   \<and> plain (render_label example_world root_node True False True True)
       = [BLACK_CIRCLE] @ ascii '' envs''"
proof -
  have lb: "label base_node = StrLabel (ascii ''base'')" by (simp add: base_node_def)
  have lr: "label root_node = StrLabel (ascii ''envs'')" by (simp add: root_node_def)
  have e: "env_rpath example_world (data base_node) = Some (ascii ''/opt/conda'')"
    "env_name (data base_node) = Some (ascii ''base'')"
    "env_rpath example_world (data root_node) = None"
    "env_name (data root_node) = None"
    by (simp_all add: example_world_def base_node_def base_env_def root_node_def
        Environment0_def)
  show ?thesis
    using render_label_text_bold_icon[OF lb, of example_world False False False True]
      render_label_text_bold_icon[OF lb, of example_world True False True True]
      render_label_text_bold_icon[OF lr, of example_world True False True True] lb lr
    unfolding e
    by (simp add: label_text_by_rule_def STRIP_CONTROL_CODES_def strip_control_codes_def)
qed

end
